theory Spec2Isabelle
  imports Main "HOL-Library.Word"
begin

unbundle bit_operations_syntax

section \<open>The toolkit module: data\<close>

text \<open>
  The development embeds \<^verbatim>\<open>toolkit/tools.go\<close>: \<^verbatim>\<open>RandomString\<close>,
  \<^verbatim>\<open>UploadOneFile\<close>, \<^verbatim>\<open>UploadFiles\<close> and \<^verbatim>\<open>CreateDirIfNotExist\<close>.
  Go functions return a tuple and may panic; both are values here. What a method does to
  its receiver, to the filesystem and to the random source is explicit state passing.
\<close>

type_synonym byte = "8 word"

text \<open>A path is the list of its components below the root, cleaned and absolute.\<close>

type_synonym path = "string list"

datatype errno = ENOENT | ENOTDIR | EEXIST | EISDIR | EACCES

text \<open>
  Go's \<^verbatim>\<open>error\<close> values: \<^verbatim>\<open>errors.New(msg)\<close> of the module itself, \<^verbatim>\<open>io.EOF\<close>,
  the \<^verbatim>\<open>*fs.PathError\<close> of package os (operation and errno), the errors of the
  multipart reader, and \<open>IOFault\<close> for any other failure of a stream or of the disk.
\<close>

datatype error =
    errors_New string
  | io_EOF
  | PathError string errno
  | ErrNotMultipart
  | ErrMissingBoundary
  | ErrMessageTooLarge
  | IOFault string

datatype 'a exec = Returns 'a | Panics string

text \<open>
  A directory or a regular file carries its nine permission bits and which of their
  three groups applies to the process: the owner's, the group's or the others'. A file
  carries its bytes.
\<close>

datatype who = Owner | Group | Other

datatype node = Dir "32 word" who | File "32 word" who "byte list"

text \<open>
  The world outside the module: the filesystem (what is stored at each path), the umask
  of the process, whether the process is the superuser, and the outcomes of the
  successive calls of \<^verbatim>\<open>rand.Prime(rand.Reader, 64)\<close> (\<open>None\<close>: the call returned an
  error and a nil number), with the count of calls made so far.
\<close>

record world =
  fs :: "path \<rightharpoonup> node"
  umask :: "32 word"
  superuser :: bool
  prime_stream :: "nat \<Rightarrow> nat option"
  prime_calls :: nat

record Tools =
  MaxFileSize :: int
  AllowedFileTypes :: "string list"
  MaxJSONSize :: int
  AllowUnknownFields :: bool

record UploadedFile =
  NewFileName :: string
  OriginalFileName :: string
  FileSize :: int

section \<open>RandomString\<close>

definition randomStringSource :: string where
  "randomStringSource = ''abcdefghijklmnopqrstuvwxyzABCDEFGHIJKLMNOPQRSTUVWXYZ0123456789_+''"

text \<open>
  \<^verbatim>\<open>rand.Prime(rand.Reader, bits)\<close>: an error for fewer than two bits, else the next
  outcome of the random source.
\<close>

definition rand_Prime :: "int \<Rightarrow> world \<Rightarrow> nat option \<times> world" where
  "rand_Prime bits w =
     (if bits < 2 then (None, w)
      else (prime_stream w (prime_calls w), w\<lparr>prime_calls := Suc (prime_calls w)\<rparr>))"

text \<open>
  The loop \<^verbatim>\<open>for i := range s\<close>. The error of \<^verbatim>\<open>rand.Prime\<close> is dropped
  (\<^verbatim>\<open>p, _ :=\<close>), so on failure \<^verbatim>\<open>p.Uint64()\<close> dereferences nil. \<^verbatim>\<open>Uint64\<close> is the
  low 64 bits of the number.
\<close>

fun RandomString_loop :: "nat list \<Rightarrow> string \<Rightarrow> world \<Rightarrow> string exec \<times> world" where
  "RandomString_loop [] s w = (Returns s, w)"
| "RandomString_loop (i # rest) s w =
     (let r = randomStringSource in
      case rand_Prime (int (length r)) w of
        (None, w') \<Rightarrow> (Panics ''invalid memory address or nil pointer dereference'', w')
      | (Some p, w') \<Rightarrow>
          (let x = p mod 2 ^ 64; y = length r
           in RandomString_loop rest (s[i := r ! (x mod y)]) w'))"

definition RandomString :: "int \<Rightarrow> world \<Rightarrow> string exec \<times> world" where
  "RandomString n w =
     (if n < 0 then (Panics ''makeslice: len out of range'', w)
      else RandomString_loop [0..<nat n] (replicate (nat n) (CHR 0x00)) w)"

section \<open>Package os on the filesystem\<close>

text \<open>
  The access check of the kernel on the permission bits: \<open>want\<close> is 4 to read, 2 to
  write, 1 to search a directory, and sums of these. The superuser passes every check
  made here. Access control lists and symbolic links are not part of the model.
\<close>

definition rights :: "32 word \<Rightarrow> who \<Rightarrow> 32 word" where
  "rights m k =
     (case k of Owner \<Rightarrow> drop_bit 6 m | Group \<Rightarrow> drop_bit 3 m | Other \<Rightarrow> m) AND 7"

definition permits :: "bool \<Rightarrow> 32 word \<Rightarrow> 32 word \<Rightarrow> who \<Rightarrow> bool" where
  "permits su want m k \<longleftrightarrow> su \<or> rights m k AND want = want"

text \<open>
  Path resolution as the kernel does it: from the root, one component at a time. A
  missing component is \<open>ENOENT\<close>, a regular file in the place of a directory is
  \<open>ENOTDIR\<close>, a directory on the way that the process may not search is \<open>EACCES\<close>.
\<close>

fun walk :: "bool \<Rightarrow> (path \<rightharpoonup> node) \<Rightarrow> path \<Rightarrow> string list \<Rightarrow> errno + node" where
  "walk su f cur [] = (case f cur of None \<Rightarrow> Inl ENOENT | Some n \<Rightarrow> Inr n)"
| "walk su f cur (c # cs) =
     (case f cur of
        None \<Rightarrow> Inl ENOENT
      | Some (File _ _ _) \<Rightarrow> Inl ENOTDIR
      | Some (Dir m k) \<Rightarrow>
          if permits su 1 m k then walk su f (cur @ [c]) cs else Inl EACCES)"

definition os_Stat :: "path \<Rightarrow> world \<Rightarrow> error + node" where
  "os_Stat p w =
     (case walk (superuser w) (fs w) [] p of
        Inl e \<Rightarrow> Inl (PathError ''stat'' e)
      | Inr n \<Rightarrow> Inr n)"

text \<open>\<^verbatim>\<open>os.IsNotExist(err)\<close>; \<open>None\<close> is the nil error.\<close>

fun os_IsNotExist :: "error option \<Rightarrow> bool" where
  "os_IsNotExist (Some (PathError _ ENOENT)) = True"
| "os_IsNotExist _ = False"

text \<open>
  \<^verbatim>\<open>os.Mkdir(p, perm)\<close>: the parent must be searched and written; the new
  directory gets \<^verbatim>\<open>perm &^ umask\<close> and belongs to the process.
\<close>

definition os_Mkdir :: "path \<Rightarrow> 32 word \<Rightarrow> world \<Rightarrow> error option \<times> world" where
  "os_Mkdir p perm w =
     (case p of
        [] \<Rightarrow> (Some (PathError ''mkdir'' EEXIST), w)
      | _ # _ \<Rightarrow>
         (case walk (superuser w) (fs w) [] (butlast p) of
            Inl e \<Rightarrow> (Some (PathError ''mkdir'' e), w)
          | Inr (File _ _ _) \<Rightarrow> (Some (PathError ''mkdir'' ENOTDIR), w)
          | Inr (Dir m k) \<Rightarrow>
             if \<not> permits (superuser w) 1 m k then (Some (PathError ''mkdir'' EACCES), w)
             else
               (case fs w p of
                  Some _ \<Rightarrow> (Some (PathError ''mkdir'' EEXIST), w)
                | None \<Rightarrow>
                    if \<not> permits (superuser w) 2 m k
                    then (Some (PathError ''mkdir'' EACCES), w)
                    else (None,
                          w\<lparr>fs := (fs w)(p \<mapsto> Dir (perm AND NOT (umask w)) Owner)\<rparr>))))"

text \<open>
  \<^verbatim>\<open>os.MkdirAll(p, perm)\<close>, after its source: stat the path (a directory ends with
  success, anything else with \<open>ENOTDIR\<close>); otherwise make the parent when the path has
  one below the root, then \<^verbatim>\<open>Mkdir\<close> the path, forgiving its error when the path is a
  directory by then.
\<close>

function os_MkdirAll :: "path \<Rightarrow> 32 word \<Rightarrow> world \<Rightarrow> error option \<times> world" where
  "os_MkdirAll p perm w =
     (case os_Stat p w of
        Inr (Dir _ _) \<Rightarrow> (None, w)
      | Inr (File _ _ _) \<Rightarrow> (Some (PathError ''mkdir'' ENOTDIR), w)
      | Inl _ \<Rightarrow>
         (case (if 1 < length p then os_MkdirAll (butlast p) perm w else (None, w)) of
            (Some err, w1) \<Rightarrow> (Some err, w1)
          | (None, w1) \<Rightarrow>
             (case os_Mkdir p perm w1 of
                (None, w2) \<Rightarrow> (None, w2)
              | (Some err, w2) \<Rightarrow>
                 (case os_Stat p w2 of
                    Inr (Dir _ _) \<Rightarrow> (None, w2)
                  | Inr (File _ _ _) \<Rightarrow> (Some err, w2)
                  | Inl _ \<Rightarrow> (Some err, w2)))))"
  by pat_completeness auto
termination
  by (relation "measure (\<lambda>(p, perm, w). length p)") auto

text \<open>
  \<^verbatim>\<open>os.Create(p)\<close> opens with \<^verbatim>\<open>O_RDWR|O_CREATE|O_TRUNC\<close> and mode \<^verbatim>\<open>0666\<close>: a file
  that exists must be read and written and is emptied; a file that does not exist is
  made in a parent that must be written, with \<^verbatim>\<open>0666 &^ umask\<close>. The handle it
  returns is the path.
\<close>

definition os_Create :: "path \<Rightarrow> world \<Rightarrow> error option \<times> world" where
  "os_Create p w =
     (case p of
        [] \<Rightarrow> (Some (PathError ''open'' EISDIR), w)
      | _ # _ \<Rightarrow>
         (case walk (superuser w) (fs w) [] (butlast p) of
            Inl e \<Rightarrow> (Some (PathError ''open'' e), w)
          | Inr (File _ _ _) \<Rightarrow> (Some (PathError ''open'' ENOTDIR), w)
          | Inr (Dir m k) \<Rightarrow>
             if \<not> permits (superuser w) 1 m k then (Some (PathError ''open'' EACCES), w)
             else
               (case fs w p of
                  Some (Dir _ _) \<Rightarrow> (Some (PathError ''open'' EISDIR), w)
                | Some (File fm fk _) \<Rightarrow>
                    if permits (superuser w) 6 fm fk
                    then (None, w\<lparr>fs := (fs w)(p \<mapsto> File fm fk [])\<rparr>)
                    else (Some (PathError ''open'' EACCES), w)
                | None \<Rightarrow>
                    if permits (superuser w) 2 m k
                    then (None,
                          w\<lparr>fs := (fs w)(p \<mapsto> File (0x1B6 AND NOT (umask w)) Owner [])\<rparr>)
                    else (Some (PathError ''open'' EACCES), w))))"

text \<open>
  Writing through the handle of an open file replaces its bytes and leaves its
  permission bits. A path that holds no file is left alone.
\<close>

definition write_bytes :: "(path \<rightharpoonup> node) \<Rightarrow> path \<Rightarrow> byte list \<Rightarrow> (path \<rightharpoonup> node)" where
  "write_bytes f p bs =
     (case f p of
        Some (File m k _) \<Rightarrow> f(p \<mapsto> File m k bs)
      | Some (Dir _ _) \<Rightarrow> f
      | None \<Rightarrow> f)"

text \<open>\<^verbatim>\<open>os.ReadFile(p)\<close>, for reading a stored file back.\<close>

definition os_ReadFile :: "path \<Rightarrow> world \<Rightarrow> error + byte list" where
  "os_ReadFile p w =
     (case walk (superuser w) (fs w) [] p of
        Inl e \<Rightarrow> Inl (PathError ''open'' e)
      | Inr (Dir _ _) \<Rightarrow> Inl (PathError ''read'' EISDIR)
      | Inr (File m k bs) \<Rightarrow>
          if permits (superuser w) 4 m k then Inr bs else Inl (PathError ''open'' EACCES))"

section \<open>Package path/filepath\<close>

text \<open>
  \<^verbatim>\<open>filepath.Ext\<close> scans the name from its end up to the last separator and returns
  the suffix that starts at the first dot it meets.
\<close>

fun Ext_scan :: "string \<Rightarrow> string \<Rightarrow> string" where
  "Ext_scan [] suffix = []"
| "Ext_scan (c # front) suffix =
     (if c = CHR ''/'' then []
      else if c = CHR ''.'' then c # suffix
      else Ext_scan front (c # suffix))"

definition filepath_Ext :: "string \<Rightarrow> string" where
  "filepath_Ext name = Ext_scan (rev name) []"

text \<open>
  \<^verbatim>\<open>filepath.Join(dir, name)\<close> is \<^verbatim>\<open>Clean(dir + "/" + name)\<close>: the name is cut at its
  separators; an empty component and \<^verbatim>\<open>.\<close> are dropped, \<^verbatim>\<open>..\<close> removes the
  component before it (and nothing at the root).
\<close>

fun split_sep :: "string \<Rightarrow> string \<Rightarrow> string list" where
  "split_sep [] cur = [cur]"
| "split_sep (c # cs) cur =
     (if c = CHR ''/'' then cur # split_sep cs [] else split_sep cs (cur @ [c]))"

definition Clean_step :: "path \<Rightarrow> string \<Rightarrow> path" where
  "Clean_step d c =
     (if c = [] \<or> c = ''.'' then d else if c = ''..'' then butlast d else d @ [c])"

definition filepath_Join :: "path \<Rightarrow> string \<Rightarrow> path" where
  "filepath_Join dir name = foldl Clean_step dir (split_sep name [])"

section \<open>Package mime/multipart and the request\<close>

text \<open>
  What the opened stream of a file part does beyond delivering its bytes: the error of
  \<^verbatim>\<open>Open\<close>, of \<^verbatim>\<open>Read\<close> (other than end of file), of \<^verbatim>\<open>Seek\<close>, and of the copy
  to the destination (after so many bytes were written). \<open>None\<close> everywhere is a
  stream and a disk that work. The opened stream has a read offset, which starts at 0.
\<close>

record stream_io =
  open_err :: "error option"
  read_err :: "error option"
  seek_err :: "error option"
  copy_err :: "(nat \<times> error) option"

text \<open>
  \<^verbatim>\<open>multipart.FileHeader\<close>: the name the client declared, the content type the client
  declared, the size recorded in the header, and the bytes \<^verbatim>\<open>Open\<close> gives access to.
\<close>

record FileHeader =
  Filename :: string
  Header_ContentType :: string
  Size :: int
  content :: "byte list"
  faults :: stream_io

text \<open>
  One part of the request body, as \<^verbatim>\<open>NextPart\<close> yields it: what \<^verbatim>\<open>FormName\<close> and
  \<^verbatim>\<open>FileName\<close> return for it (the latter is the base name of the file name in the
  header of the part, and empty for a part that is no file), the content type of its
  header, and its bytes.
\<close>

record Part =
  FormName :: string
  FileName :: string
  ContentType :: string
  data :: "byte list"
  stream :: stream_io

text \<open>
  The request: the error of \<^verbatim>\<open>ParseForm\<close> on the URL query, the error of
  \<^verbatim>\<open>multipartReader\<close> (no multipart content type, no boundary), the parts of the body
  in order, and the error that ends the body instead of a clean end of input.
\<close>

record Request =
  ParseForm_err :: "error option"
  multipartReader_err :: "error option"
  body_parts :: "Part list"
  NextPart_err :: "error option"

type_synonym form_File = "(string \<times> FileHeader list) list"

definition wrap64 :: "int \<Rightarrow> int" where
  "wrap64 x = (x + 2 ^ 63) mod 2 ^ 64 - 2 ^ 63"

definition MaxInt64 :: int where
  "MaxInt64 = 2 ^ 63 - 1"

text \<open>The number of bytes \<^verbatim>\<open>io.CopyN(&b, p, n)\<close> copies from a part.\<close>

definition io_CopyN :: "byte list \<Rightarrow> int \<Rightarrow> int" where
  "io_CopyN d n = (if n \<le> 0 then 0 else min n (int (length d)))"

text \<open>\<^verbatim>\<open>form.File[name] = append(form.File[name], fh)\<close>\<close>

fun File_append :: "form_File \<Rightarrow> string \<Rightarrow> FileHeader \<Rightarrow> form_File" where
  "File_append [] name fh = [(name, [fh])]"
| "File_append ((k, v) # m) name fh =
     (if k = name then (k, v @ [fh]) # m else (k, v) # File_append m name fh)"

text \<open>
  \<^verbatim>\<open>Reader.ReadForm(maxMemory)\<close> of Go 1.19, the release the module declares. A part
  without a form name is skipped. A part without a file name is a value: it is charged
  to \<open>maxValueBytes\<close> (\<open>maxMemory\<close> plus 10 MB), and the form is refused with
  \<open>ErrMessageTooLarge\<close> when that budget is spent. A file part is kept in memory while it
  fits into what is left of \<open>maxMemory\<close> and is written to a temporary file otherwise: a
  file part is never refused for its size. A file kept in memory has the bytes that
  \<^verbatim>\<open>io.CopyN(&b, p, maxMemory+1)\<close> copied, which are all its bytes unless the sum
  wraps around. The temporary files live outside the
  directories the model follows. Only \<^verbatim>\<open>form.File\<close> is kept, as an association
  list in the order in which the field names first occur.
\<close>

fun readForm_parts ::
  "Part list \<Rightarrow> error option \<Rightarrow> int \<Rightarrow> int \<Rightarrow> form_File \<Rightarrow> error + form_File" where
  "readForm_parts [] tail maxMemory maxValueBytes form =
     (case tail of Some err \<Rightarrow> Inl err | None \<Rightarrow> Inr form)"
| "readForm_parts (p # ps) tail maxMemory maxValueBytes form =
     (if FormName p = [] then readForm_parts ps tail maxMemory maxValueBytes form
      else if FileName p = [] then
        (let n = io_CopyN (data p) (wrap64 (maxValueBytes + 1))
         in if maxValueBytes - n < 0 then Inl ErrMessageTooLarge
            else readForm_parts ps tail maxMemory (maxValueBytes - n) form)
      else
        (let n = io_CopyN (data p) (wrap64 (maxMemory + 1))
         in if n > maxMemory
            then readForm_parts ps tail maxMemory maxValueBytes
                   (File_append form (FormName p)
                      \<lparr>Filename = FileName p, Header_ContentType = ContentType p,
                       Size = int (length (data p)), content = data p, faults = stream p\<rparr>)
            else readForm_parts ps tail (maxMemory - n) (maxValueBytes - n)
                   (File_append form (FormName p)
                      \<lparr>Filename = FileName p, Header_ContentType = ContentType p,
                       Size = n, content = take (nat n) (data p), faults = stream p\<rparr>)))"

definition ReadForm :: "Part list \<Rightarrow> error option \<Rightarrow> int \<Rightarrow> error + form_File" where
  "ReadForm ps tail maxMemory =
     (let mv = wrap64 (maxMemory + 10 * 2 ^ 20);
          maxValueBytes = (if mv \<le> 0 then (if maxMemory < 0 then 0 else MaxInt64) else mv)
      in readForm_parts ps tail maxMemory maxValueBytes [])"

text \<open>\<^verbatim>\<open>Request.ParseMultipartForm(maxMemory)\<close> on a request not parsed before.\<close>

definition ParseMultipartForm :: "Request \<Rightarrow> int \<Rightarrow> error + form_File" where
  "ParseMultipartForm r maxMemory =
     (case multipartReader_err r of
        Some err \<Rightarrow> Inl err
      | None \<Rightarrow>
         (case ReadForm (body_parts r) (NextPart_err r) maxMemory of
            Inl err \<Rightarrow> Inl err
          | Inr f \<Rightarrow> (case ParseForm_err r of Some err \<Rightarrow> Inl err | None \<Rightarrow> Inr f)))"

text \<open>
  The bytes the file and value parts of a body carry. The body on the wire is longer:
  it has the boundaries and the part headers as well.
\<close>

definition payload_size :: "Request \<Rightarrow> nat" where
  "payload_size r = sum_list (map (\<lambda>p. length (data p)) (body_parts r))"

text \<open>
  \<^verbatim>\<open>infile.Read(buff)\<close> at the read offset \<open>off\<close>: at the end of the input it returns
  \<^verbatim>\<open>io.EOF\<close> and reads nothing; otherwise it overwrites the front of the buffer with
  as many of the bytes from the offset on as fit, leaves the rest of the buffer as it
  was, and advances the offset by the count of bytes read.
\<close>

definition File_Read ::
  "FileHeader \<Rightarrow> nat \<Rightarrow> byte list \<Rightarrow> error option \<times> byte list \<times> nat" where
  "File_Read hdr off buff =
     (case read_err (faults hdr) of
        Some err \<Rightarrow> (Some err, buff, off)
      | None \<Rightarrow>
         if drop off (content hdr) = [] then (Some io_EOF, buff, off)
         else (let got = take (length buff) (drop off (content hdr))
               in (None, got @ drop (length got) buff, off + length got)))"

text \<open>
  \<^verbatim>\<open>infile.Seek(offset, whence)\<close>: the new read offset counts from the start
  (\<open>whence = 0\<close>), from the current offset (1) or from the end (2), and may not be
  negative.
\<close>

definition File_Seek :: "FileHeader \<Rightarrow> int \<Rightarrow> int \<Rightarrow> nat \<Rightarrow> error option \<times> nat" where
  "File_Seek hdr offset whence off =
     (case seek_err (faults hdr) of
        Some err \<Rightarrow> (Some err, off)
      | None \<Rightarrow>
         if whence \<noteq> 0 \<and> whence \<noteq> 1 \<and> whence \<noteq> 2
         then (Some (errors_New ''Seek: invalid whence''), off)
         else
           (let target = (if whence = 0 then offset
                          else if whence = 1 then int off + offset
                          else int (length (content hdr)) + offset)
            in if target < 0 then (Some (errors_New ''Seek: invalid offset''), off)
               else (None, nat target)))"

text \<open>
  \<^verbatim>\<open>io.Copy(outfile, infile)\<close> into the file at \<open>dst\<close>: it copies the bytes of the part
  from the read offset on, and returns the count of bytes written and the error, if the
  copy broke off.
\<close>

definition io_Copy ::
  "path \<Rightarrow> FileHeader \<Rightarrow> nat \<Rightarrow> world \<Rightarrow> (int \<times> error option) \<times> world" where
  "io_Copy dst hdr off w =
     (case copy_err (faults hdr) of
        Some (k, err) \<Rightarrow>
          ((int (length (take k (drop off (content hdr)))), Some err),
           w\<lparr>fs := write_bytes (fs w) dst (take k (drop off (content hdr)))\<rparr>)
      | None \<Rightarrow>
          ((int (length (drop off (content hdr))), None),
           w\<lparr>fs := write_bytes (fs w) dst (drop off (content hdr))\<rparr>))"

text \<open>
  \<^verbatim>\<open>http.DetectContentType\<close> and \<^verbatim>\<open>strings.EqualFold\<close> are parameters of the model:
  the module calls them and nothing in it depends on how they decide. So is the order in
  which \<^verbatim>\<open>range\<close> visits the entries of a map, which Go leaves open.
\<close>

record stdlib =
  DetectContentType :: "byte list \<Rightarrow> string"
  EqualFold :: "string \<Rightarrow> string \<Rightarrow> bool"
  range_order :: "form_File \<Rightarrow> form_File"

section \<open>CreateDirIfNotExist\<close>

text \<open>The constant \<^verbatim>\<open>mode\<close>, octal 0755.\<close>

definition mode :: "32 word" where
  "mode = 0x1ED"

definition CreateDirIfNotExist :: "path \<Rightarrow> world \<Rightarrow> error option \<times> world" where
  "CreateDirIfNotExist p w =
     (let err = (case os_Stat p w of Inl e \<Rightarrow> Some e | Inr _ \<Rightarrow> None)
      in if os_IsNotExist err then
           (case os_MkdirAll p mode w of
              (Some err, w') \<Rightarrow> (Some err, w')
            | (None, w') \<Rightarrow> (None, w'))
         else (None, w))"

section \<open>UploadFiles and UploadOneFile\<close>

text \<open>
  The function literal that processes one file header. It returns \<^verbatim>\<open>nil, err\<close> on
  every failure and the extended slice on success. The read offset of \<^verbatim>\<open>infile\<close> is 0
  after \<^verbatim>\<open>Open\<close>, is moved by \<^verbatim>\<open>Read\<close>, is set by \<^verbatim>\<open>Seek(0, 0)\<close>, and is where
  \<^verbatim>\<open>io.Copy\<close> starts.
\<close>

definition UploadFiles_func ::
  "stdlib \<Rightarrow> Tools \<Rightarrow> path \<Rightarrow> bool \<Rightarrow> FileHeader \<Rightarrow> UploadedFile list \<Rightarrow> world \<Rightarrow>
   (UploadedFile list \<times> error option) exec \<times> world" where
  "UploadFiles_func L t uploadDir renameFile hdr uploadedFiles w =
     (case open_err (faults hdr) of
        Some err \<Rightarrow> (Returns ([], Some err), w)
      | None \<Rightarrow>
     (case File_Read hdr 0 (replicate 512 0) of
        (Some err, buff, off1) \<Rightarrow> (Returns ([], Some err), w)
      | (None, buff, off1) \<Rightarrow>
     (let fileType = DetectContentType L buff;
          allowed = (if length (AllowedFileTypes t) > 0
                     then list_ex (\<lambda>x. EqualFold L fileType x) (AllowedFileTypes t)
                     else True)
      in
      if \<not> allowed
      then (Returns ([], Some (errors_New ''the uploaded file type is not permitted'')), w)
      else
     (case File_Seek hdr 0 0 off1 of
        (Some err, off2) \<Rightarrow> (Returns ([], Some err), w)
      | (None, off2) \<Rightarrow>
     (case (if renameFile
            then (case RandomString 25 w of
                    (Panics m, w1) \<Rightarrow> (Panics m, w1)
                  | (Returns s, w1) \<Rightarrow> (Returns (s @ filepath_Ext (Filename hdr)), w1))
            else (Returns (Filename hdr), w)) of
        (Panics m, w1) \<Rightarrow> (Panics m, w1)
      | (Returns newFileName, w1) \<Rightarrow>
     (case os_Create (filepath_Join uploadDir newFileName) w1 of
        (Some err, w2) \<Rightarrow> (Returns ([], Some err), w2)
      | (None, w2) \<Rightarrow>
     (case io_Copy (filepath_Join uploadDir newFileName) hdr off2 w2 of
        ((fileSize, Some err), w3) \<Rightarrow> (Returns ([], Some err), w3)
      | ((fileSize, None), w3) \<Rightarrow>
          (Returns (uploadedFiles @
                    [\<lparr>NewFileName = newFileName, OriginalFileName = Filename hdr,
                      FileSize = fileSize\<rparr>], None), w3))))))))"

text \<open>
  The inner loop \<^verbatim>\<open>for _, hdr := range fHeaders\<close> and the outer loop over
  \<^verbatim>\<open>r.MultipartForm.File\<close>. The result of the function literal is assigned to
  \<^verbatim>\<open>uploadedFiles, err\<close> before the error is looked at, and an error returns from both
  loops.
\<close>

fun range_fHeaders ::
  "stdlib \<Rightarrow> Tools \<Rightarrow> path \<Rightarrow> bool \<Rightarrow> FileHeader list \<Rightarrow> UploadedFile list \<Rightarrow> world \<Rightarrow>
   (UploadedFile list \<times> error option) exec \<times> world" where
  "range_fHeaders L t uploadDir renameFile [] uploadedFiles w = (Returns (uploadedFiles, None), w)"
| "range_fHeaders L t uploadDir renameFile (hdr # rest) uploadedFiles w =
     (case UploadFiles_func L t uploadDir renameFile hdr uploadedFiles w of
        (Panics m, w') \<Rightarrow> (Panics m, w')
      | (Returns (uploadedFiles', Some err), w') \<Rightarrow> (Returns (uploadedFiles', Some err), w')
      | (Returns (uploadedFiles', None), w') \<Rightarrow>
          range_fHeaders L t uploadDir renameFile rest uploadedFiles' w')"

fun range_File ::
  "stdlib \<Rightarrow> Tools \<Rightarrow> path \<Rightarrow> bool \<Rightarrow> form_File \<Rightarrow> UploadedFile list \<Rightarrow> world \<Rightarrow>
   (UploadedFile list \<times> error option) exec \<times> world" where
  "range_File L t uploadDir renameFile [] uploadedFiles w = (Returns (uploadedFiles, None), w)"
| "range_File L t uploadDir renameFile ((name, fHeaders) # rest) uploadedFiles w =
     (case range_fHeaders L t uploadDir renameFile fHeaders uploadedFiles w of
        (Panics m, w') \<Rightarrow> (Panics m, w')
      | (Returns (uploadedFiles', Some err), w') \<Rightarrow> (Returns (uploadedFiles', Some err), w')
      | (Returns (uploadedFiles', None), w') \<Rightarrow>
          range_File L t uploadDir renameFile rest uploadedFiles' w')"

text \<open>
  \<^verbatim>\<open>UploadFiles\<close> has a pointer receiver: the \<open>Tools\<close> value after the call is part
  of the result. The variadic \<^verbatim>\<open>rename ...bool\<close> is a list.
\<close>

definition UploadFiles ::
  "stdlib \<Rightarrow> Tools \<Rightarrow> Request \<Rightarrow> path \<Rightarrow> bool list \<Rightarrow> world \<Rightarrow>
   (UploadedFile list \<times> error option) exec \<times> Tools \<times> world" where
  "UploadFiles L t r uploadDir rename w =
     (let renameFile = (case rename of [] \<Rightarrow> True | b # _ \<Rightarrow> b);
          t1 = (if MaxFileSize t = 0 then t\<lparr>MaxFileSize := 1024 * 1024 * 1024\<rparr> else t)
      in
      case CreateDirIfNotExist uploadDir w of
        (Some err, w1) \<Rightarrow> (Returns ([], Some err), t1, w1)
      | (None, w1) \<Rightarrow>
         (case ParseMultipartForm r (MaxFileSize t1) of
            Inl err \<Rightarrow> (Returns ([], Some (errors_New ''the uploaded file is too big'')), t1, w1)
          | Inr form \<Rightarrow>
             (case range_File L t1 uploadDir renameFile (range_order L form) [] w1 of
                (res, w2) \<Rightarrow> (res, t1, w2))))"

definition UploadOneFile ::
  "stdlib \<Rightarrow> Tools \<Rightarrow> Request \<Rightarrow> path \<Rightarrow> bool list \<Rightarrow> world \<Rightarrow>
   (UploadedFile option \<times> error option) exec \<times> Tools \<times> world" where
  "UploadOneFile L t r uploadDir rename w =
     (let renameFile = (case rename of [] \<Rightarrow> True | b # _ \<Rightarrow> b)
      in
      case UploadFiles L t r uploadDir [renameFile] w of
        (Panics m, t', w') \<Rightarrow> (Panics m, t', w')
      | (Returns (files, Some err), t', w') \<Rightarrow> (Returns (None, Some err), t', w')
      | (Returns (files, None), t', w') \<Rightarrow>
         (case files of
            [] \<Rightarrow> (Panics ''index out of range [0] with length 0'', t', w')
          | f # _ \<Rightarrow> (Returns (Some f, None), t', w')))"

section \<open>Notions for the statements\<close>

text \<open>
  The buffer \<^verbatim>\<open>buff\<close> as the sniffer receives it: 512 bytes, the first bytes of the
  content followed by the zero bytes \<^verbatim>\<open>make\<close> put there.
\<close>

definition sniff_window :: "byte list \<Rightarrow> byte list" where
  "sniff_window c = take 512 c @ replicate (512 - length c) 0"

text \<open>The decision on \<^verbatim>\<open>allowed\<close> for a given buffer.\<close>

definition allowed_type :: "stdlib \<Rightarrow> Tools \<Rightarrow> byte list \<Rightarrow> bool" where
  "allowed_type L t buff \<longleftrightarrow>
     (AllowedFileTypes t = [] \<or>
      list_ex (\<lambda>x. EqualFold L (DetectContentType L buff) x) (AllowedFileTypes t))"

text \<open>The receiver after the default of \<^verbatim>\<open>MaxFileSize\<close>, and the value of \<^verbatim>\<open>renameFile\<close>.\<close>

definition default_MaxFileSize :: "Tools \<Rightarrow> Tools" where
  "default_MaxFileSize t = (if MaxFileSize t = 0 then t\<lparr>MaxFileSize := 1024 * 1024 * 1024\<rparr> else t)"

definition renameFile_of :: "bool list \<Rightarrow> bool" where
  "renameFile_of rename = (case rename of [] \<Rightarrow> True | b # _ \<Rightarrow> b)"

text \<open>
  Primality, for what \<^verbatim>\<open>rand.Prime\<close> promises of the number it returns: a prime of
  exactly the bit length asked for.
\<close>

definition is_prime :: "nat \<Rightarrow> bool" where
  "is_prime p \<longleftrightarrow> 1 < p \<and> (\<forall>d. d dvd p \<longrightarrow> d = 1 \<or> d = p)"

definition rand_Prime_post :: "nat \<Rightarrow> nat \<Rightarrow> bool" where
  "rand_Prime_post bits p \<longleftrightarrow> 2 ^ (bits - 1) \<le> p \<and> p < 2 ^ bits \<and> is_prime p"


text \<open>
  How a record is named after its file header: with 25 characters of the source string
  and the extension of the declared name when files are renamed, with the declared name
  otherwise.
\<close>

definition named_by :: "bool \<Rightarrow> FileHeader \<Rightarrow> UploadedFile \<Rightarrow> bool" where
  "named_by rn h rec \<longleftrightarrow>
     OriginalFileName rec = Filename h \<and>
     (if rn
      then (\<exists>s. length s = 25 \<and> set s \<subseteq> set randomStringSource \<and>
                NewFileName rec = s @ filepath_Ext (Filename h))
      else NewFileName rec = Filename h)"

text \<open>
  A well-formed filesystem: the root is a directory, and whatever exists lies in a
  directory.
\<close>

definition wf_fs :: "(path \<rightharpoonup> node) \<Rightarrow> bool" where
  "wf_fs f \<longleftrightarrow>
     (\<exists>m k. f [] = Some (Dir m k)) \<and>
     (\<forall>q c. f (q @ [c]) \<noteq> None \<longrightarrow> (\<exists>m k. f q = Some (Dir m k)))"

section \<open>Inputs for the examples\<close>

text \<open>
  An instance of the parameters. The sniffer has the PNG and the JPEG
  signature of \<^verbatim>\<open>net/http\<close>, its rule for text (no binary byte after the leading
  white space) and its fallback; on the inputs of the examples, which match no other
  signature of the library's table, it returns what \<^verbatim>\<open>http.DetectContentType\<close>
  returns. The comparison folds the ASCII letters, as \<^verbatim>\<open>strings.EqualFold\<close> does on
  ASCII strings. The map is visited in the order of the association list.
\<close>

definition isWS :: "byte \<Rightarrow> bool" where
  "isWS b \<longleftrightarrow> b = 0x09 \<or> b = 0x0A \<or> b = 0x0C \<or> b = 0x0D \<or> b = 0x20"

definition isBinary :: "byte \<Rightarrow> bool" where
  "isBinary b \<longleftrightarrow>
     b \<le> 0x08 \<or> b = 0x0B \<or> (0x0E \<le> b \<and> b \<le> 0x1A) \<or> (0x1C \<le> b \<and> b \<le> 0x1F)"

fun has_signature :: "byte list \<Rightarrow> byte list \<Rightarrow> bool" where
  "has_signature [] d = True"
| "has_signature (s # sig) [] = False"
| "has_signature (s # sig) (b # d) = (s = b \<and> has_signature sig d)"

definition sniff_ex :: "byte list \<Rightarrow> string" where
  "sniff_ex input =
     (let d = take 512 input in
      if has_signature [0x89, 0x50, 0x4E, 0x47, 0x0D, 0x0A, 0x1A, 0x0A] d then ''image/png''
      else if has_signature [0xFF, 0xD8, 0xFF] d then ''image/jpeg''
      else if list_ex isBinary (dropWhile isWS d) then ''application/octet-stream''
      else ''text/plain; charset=utf-8'')"

definition ascii_lower :: "char \<Rightarrow> char" where
  "ascii_lower c =
     (let n = (of_char c :: nat) in if 65 \<le> n \<and> n \<le> 90 then char_of (n + 32) else c)"

definition stdlib_ex :: stdlib where
  "stdlib_ex =
     \<lparr>DetectContentType = sniff_ex,
      EqualFold = (\<lambda>a b. map ascii_lower a = map ascii_lower b),
      range_order = (\<lambda>form. form)\<rparr>"

text \<open>A stream and a disk that work, file parts of the field \<^verbatim>\<open>file\<close>, a well-formed request.\<close>

definition no_faults :: stream_io where
  "no_faults = \<lparr>open_err = None, read_err = None, seek_err = None, copy_err = None\<rparr>"

definition file_part :: "string \<Rightarrow> string \<Rightarrow> byte list \<Rightarrow> Part" where
  "file_part name ctype bytes =
     \<lparr>FormName = ''file'', FileName = name, ContentType = ctype, data = bytes,
      stream = no_faults\<rparr>"

definition request_of :: "Part list \<Rightarrow> Request" where
  "request_of ps =
     \<lparr>ParseForm_err = None, multipartReader_err = None, body_parts = ps, NextPart_err = None\<rparr>"

definition tools_of :: "int \<Rightarrow> string list \<Rightarrow> Tools" where
  "tools_of m types =
     \<lparr>MaxFileSize = m, AllowedFileTypes = types, MaxJSONSize = 0, AllowUnknownFields = False\<rparr>"

text \<open>The first bytes of a PNG file, and the five bytes of \<^verbatim>\<open>hello\<close>.\<close>

definition png_bytes :: "byte list" where
  "png_bytes = [0x89, 0x50, 0x4E, 0x47, 0x0D, 0x0A, 0x1A, 0x0A, 0x00, 0x00]"

definition hello_bytes :: "byte list" where
  "hello_bytes = [0x68, 0x65, 0x6C, 0x6C, 0x6F]"

text \<open>
  A world with the directory \<^verbatim>\<open>/srv\<close> of mode 0755, owned by the process, which is not
  the superuser and has umask 022, and a random source that yields the prime
  \<open>2\<^sup>6\<^sup>4 - 59\<close> at every call; its low six bits are 5, the index of \<^verbatim>\<open>f\<close>.
\<close>

definition world_ex :: world where
  "world_ex =
     \<lparr>fs = [[] \<mapsto> Dir 0x1ED Other, [''srv''] \<mapsto> Dir 0x1ED Owner], umask = 0x12,
      superuser = False,
      prime_stream = (\<lambda>_. Some 18446744073709551557), prime_calls = 0\<rparr>"

text \<open>The same world with the regular file \<^verbatim>\<open>/srv/notes\<close>.\<close>

definition world_file :: world where
  "world_file =
     world_ex\<lparr>fs := (fs world_ex)([''srv'', ''notes''] \<mapsto> File 0x1A4 Owner hello_bytes)\<rparr>"

text \<open>The world of the first example with umask 0300.\<close>

definition world_umask :: world where
  "world_umask = world_ex\<lparr>umask := 0xC0\<rparr>"

text \<open>
  A file header of ten bytes of PNG, declared by the client as a GIF of three bytes.
\<close>

definition png_header :: FileHeader where
  "png_header =
     \<lparr>Filename = ''a.png'', Header_ContentType = ''image/gif'', Size = 3,
      content = png_bytes, faults = no_faults\<rparr>"

text \<open>A file header of five bytes of text, declared by the client as a PNG.\<close>

definition txt_header :: FileHeader where
  "txt_header =
     \<lparr>Filename = ''b.txt'', Header_ContentType = ''image/png'', Size = 5,
      content = hello_bytes, faults = no_faults\<rparr>"

section \<open>Lemmas\<close>

subsection \<open>Path resolution and the directories\<close>

declare os_MkdirAll.simps [simp del]

lemma walk_snoc:
  "walk su f cur (xs @ [c]) =
     (case walk su f cur xs of
        Inl e \<Rightarrow> Inl e
      | Inr (File fm fk bs) \<Rightarrow> Inl ENOTDIR
      | Inr (Dir m k) \<Rightarrow>
          if permits su 1 m k
          then (case f (cur @ xs @ [c]) of None \<Rightarrow> Inl ENOENT | Some n \<Rightarrow> Inr n)
          else Inl EACCES)"
proof (induction xs arbitrary: cur)
  case Nil
  show ?case by (simp split: option.splits node.splits)
next
  case (Cons x xs)
  show ?case using Cons.IH [of "cur @ [x]"] by (simp split: option.splits node.splits)
qed

lemma walk_upd_below:
  "length cur + length xs < length p \<Longrightarrow> walk su (f(p \<mapsto> n)) cur xs = walk su f cur xs"
proof (induction xs arbitrary: cur)
  case Nil
  then have "cur \<noteq> p" by auto
  then show ?case by simp
next
  case (Cons x xs)
  then have ne: "cur \<noteq> p" by auto
  from Cons.prems have "length (cur @ [x]) + length xs < length p" by simp
  from Cons.IH [OF this] ne show ?case by (simp split: option.splits node.splits)
qed

lemma walk_written:
  assumes "walk su f [] q = Inr (Dir m k)" "permits su 1 m k"
  shows "walk su (f(q @ [c] \<mapsto> n)) [] (q @ [c]) = Inr n"
proof -
  have "walk su (f(q @ [c] \<mapsto> n)) [] q = walk su f [] q"
    by (rule walk_upd_below) simp
  with assms show ?thesis by (simp add: walk_snoc)
qed

lemma walk_Inr_lookup: "walk su f [] q = Inr n \<Longrightarrow> f q = Some n"
proof (cases q rule: rev_cases)
  case Nil
  assume "walk su f [] q = Inr n"
  with Nil show ?thesis by (simp split: option.splits)
next
  case (snoc q' c)
  assume "walk su f [] q = Inr n"
  with snoc show ?thesis
    by (simp add: walk_snoc split: sum.splits node.splits option.splits if_splits)
qed

text \<open>In a well-formed filesystem, a path that is reported as missing is missing.\<close>

lemma walk_ENOENT:
  "wf_fs f \<Longrightarrow> walk su f [] q = Inl ENOENT \<Longrightarrow> f q = None"
proof (induction q rule: rev_induct)
  case Nil
  then show ?case by (simp split: option.splits)
next
  case (snoc c q')
  from snoc.prems(2) consider
    (A) "walk su f [] q' = Inl ENOENT" | (B) "f (q' @ [c]) = None"
    by (auto simp: walk_snoc split: sum.splits node.splits option.splits if_splits)
  then show ?case
  proof cases
    case A
    from snoc.IH [OF snoc.prems(1) A] have "f q' = None" .
    with snoc.prems(1) show ?thesis unfolding wf_fs_def by force
  next
    case B
    then show ?thesis .
  qed
qed

lemma walk_dirs_above:
  "walk su f [] q = Inr (Dir m k) \<Longrightarrow> j \<le> length q \<Longrightarrow> \<exists>m' k'. f (take j q) = Some (Dir m' k')"
proof (induction q arbitrary: m k j rule: rev_induct)
  case Nil
  then show ?case by (simp split: option.splits)
next
  case (snoc c q')
  from snoc.prems(1) obtain m1 k1 where q': "walk su f [] q' = Inr (Dir m1 k1)"
    and here: "f (q' @ [c]) = Some (Dir m k)"
    by (auto simp: walk_snoc split: sum.splits node.splits option.splits if_splits)
  show ?case
  proof (cases "j \<le> length q'")
    case True
    with snoc.IH [OF q'] show ?thesis by simp
  next
    case False
    with snoc.prems(2) have "j = Suc (length q')" by simp
    with here show ?thesis by simp
  qed
qed

text \<open>What \<open>os_Create\<close>, \<open>os_Mkdir\<close> have done when they return no error.\<close>

lemma os_Create_ok:
  assumes "os_Create p w = (None, w')"
  shows "\<exists>m k fm fk. p \<noteq> [] \<and> walk (superuser w) (fs w) [] (butlast p) = Inr (Dir m k) \<and>
             permits (superuser w) 1 m k \<and>
             w' = w\<lparr>fs := (fs w)(p \<mapsto> File fm fk [])\<rparr>"
proof (cases p)
  case Nil
  with assms show ?thesis by (simp add: os_Create_def)
next
  case (Cons c cs)
  then have ne: "p \<noteq> []" by simp
  from assms have
    "(case walk (superuser w) (fs w) [] (butlast p) of
            Inl e \<Rightarrow> (Some (PathError ''open'' e), w)
          | Inr (File _ _ _) \<Rightarrow> (Some (PathError ''open'' ENOTDIR), w)
          | Inr (Dir m k) \<Rightarrow>
             if \<not> permits (superuser w) 1 m k then (Some (PathError ''open'' EACCES), w)
             else
               (case fs w p of
                  Some (Dir _ _) \<Rightarrow> (Some (PathError ''open'' EISDIR), w)
                | Some (File fm fk _) \<Rightarrow>
                    if permits (superuser w) 6 fm fk
                    then (None, w\<lparr>fs := (fs w)(p \<mapsto> File fm fk [])\<rparr>)
                    else (Some (PathError ''open'' EACCES), w)
                | None \<Rightarrow>
                    if permits (superuser w) 2 m k
                    then (None,
                          w\<lparr>fs := (fs w)(p \<mapsto> File (0x1B6 AND NOT (umask w)) Owner [])\<rparr>)
                    else (Some (PathError ''open'' EACCES), w))) = (None, w')"
    unfolding os_Create_def Cons by (simp del: butlast.simps)
  then have "\<exists>m k fm fk. walk (superuser w) (fs w) [] (butlast p) = Inr (Dir m k) \<and>
               permits (superuser w) 1 m k \<and>
               w' = w\<lparr>fs := (fs w)(p \<mapsto> File fm fk [])\<rparr>"
    by (auto split: sum.splits node.splits option.splits if_splits)
  with ne show ?thesis by blast
qed

lemma os_Mkdir_ok:
  assumes "os_Mkdir p perm w = (None, w')"
  shows "\<exists>m k. p \<noteq> [] \<and> walk (superuser w) (fs w) [] (butlast p) = Inr (Dir m k) \<and>
             permits (superuser w) 1 m k \<and> permits (superuser w) 2 m k \<and> fs w p = None \<and>
             w' = w\<lparr>fs := (fs w)(p \<mapsto> Dir (perm AND NOT (umask w)) Owner)\<rparr>"
proof (cases p)
  case Nil
  with assms show ?thesis by (simp add: os_Mkdir_def)
next
  case (Cons c cs)
  then have ne: "p \<noteq> []" by simp
  from assms have
    "(case walk (superuser w) (fs w) [] (butlast p) of
            Inl e \<Rightarrow> (Some (PathError ''mkdir'' e), w)
          | Inr (File _ _ _) \<Rightarrow> (Some (PathError ''mkdir'' ENOTDIR), w)
          | Inr (Dir m k) \<Rightarrow>
             if \<not> permits (superuser w) 1 m k then (Some (PathError ''mkdir'' EACCES), w)
             else
               (case fs w p of
                  Some _ \<Rightarrow> (Some (PathError ''mkdir'' EEXIST), w)
                | None \<Rightarrow>
                    if \<not> permits (superuser w) 2 m k
                    then (Some (PathError ''mkdir'' EACCES), w)
                    else (None,
                          w\<lparr>fs := (fs w)(p \<mapsto> Dir (perm AND NOT (umask w)) Owner)\<rparr>))) = (None, w')"
    unfolding os_Mkdir_def Cons by (simp del: butlast.simps)
  then have "\<exists>m k. walk (superuser w) (fs w) [] (butlast p) = Inr (Dir m k) \<and>
             permits (superuser w) 1 m k \<and> permits (superuser w) 2 m k \<and> fs w p = None \<and>
             w' = w\<lparr>fs := (fs w)(p \<mapsto> Dir (perm AND NOT (umask w)) Owner)\<rparr>"
    by (auto split: sum.splits node.splits option.splits if_splits)
  with ne show ?thesis by blast
qed

lemma os_Mkdir_error: "os_Mkdir p perm w = (Some err, w') \<Longrightarrow> w' = w"
  unfolding os_Mkdir_def
  by (auto split: list.splits sum.splits node.splits option.splits if_splits)

text \<open>
  \<open>os_MkdirAll\<close> that returns no error: the path is a directory that can be reached,
  every directory it made lies on the path and has the permission bits asked for less
  the umask, and nothing that existed has changed.
\<close>

lemma os_MkdirAll_ok:
  "os_MkdirAll p perm w = (None, w') \<Longrightarrow>
     umask w' = umask w \<and> superuser w' = superuser w \<and>
     prime_stream w' = prime_stream w \<and> prime_calls w' = prime_calls w \<and>
     (\<exists>m k. walk (superuser w) (fs w') [] p = Inr (Dir m k)) \<and>
     (\<forall>q. fs w q \<noteq> None \<longrightarrow> fs w' q = fs w q) \<and>
     (\<forall>q. fs w q = None \<and> fs w' q \<noteq> None \<longrightarrow>
          (\<exists>j \<le> length p. q = take j p) \<and>
          fs w' q = Some (Dir (perm AND NOT (umask w)) Owner))"
proof (induction p arbitrary: w' rule: rev_induct)
  case Nil
  from Nil show ?case
    by (subst (asm) os_MkdirAll.simps)
       (auto simp: os_Stat_def os_Mkdir_def split: sum.splits node.splits option.splits)
next
  case (snoc c q)
  let ?p = "q @ [c]"
  let ?d = "Dir (perm AND NOT (umask w)) Owner"
  show ?case
  proof (cases "walk (superuser w) (fs w) [] ?p")
    case (Inr n)
    with snoc.prems have "(\<exists>m k. n = Dir m k) \<and> w' = w"
      by (subst (asm) os_MkdirAll.simps) (auto simp: os_Stat_def split: node.splits)
    with Inr show ?thesis by auto
  next
    case (Inl e)
    then have stat: "os_Stat ?p w = Inl (PathError ''stat'' e)" by (simp add: os_Stat_def)
    obtain r1 w1 where par:
      "(if 1 < length ?p then os_MkdirAll (butlast ?p) perm w else (None, w)) = (r1, w1)"
      by (cases "if 1 < length ?p then os_MkdirAll (butlast ?p) perm w else (None, w)")
    obtain r2 w2 where mk: "os_Mkdir ?p perm w1 = (r2, w2)" by (cases "os_Mkdir ?p perm w1")
    have run: "os_MkdirAll ?p perm w =
         (case r1 of Some err \<Rightarrow> (Some err, w1)
          | None \<Rightarrow>
             (case r2 of None \<Rightarrow> (None, w2)
              | Some err \<Rightarrow>
                 (case os_Stat ?p w2 of
                    Inr (Dir _ _) \<Rightarrow> (None, w2)
                  | Inr (File _ _ _) \<Rightarrow> (Some err, w2)
                  | Inl _ \<Rightarrow> (Some err, w2))))"
      by (subst os_MkdirAll.simps) (simp only: stat par mk sum.case prod.case split: option.splits)
    from run snoc.prems have r1: "r1 = None" by (cases r1) auto
    have w1: "umask w1 = umask w \<and> superuser w1 = superuser w \<and>
              prime_stream w1 = prime_stream w \<and> prime_calls w1 = prime_calls w \<and>
              (\<forall>x. fs w x \<noteq> None \<longrightarrow> fs w1 x = fs w x) \<and>
              (\<forall>x. fs w x = None \<and> fs w1 x \<noteq> None \<longrightarrow>
                   (\<exists>j \<le> length q. x = take j q) \<and> fs w1 x = Some ?d)"
    proof (cases "1 < length ?p")
      case True
      with par r1 have "os_MkdirAll q perm w = (None, w1)" by simp
      from snoc.IH [OF this] show ?thesis by blast
    next
      case False
      with par have e: "w1 = w" by simp
      show ?thesis unfolding e by auto
    qed
    have pre: "\<And>x j. j \<le> length q \<Longrightarrow> x = take j q \<Longrightarrow> \<exists>j \<le> length ?p. x = take j ?p"
    proof -
      fix x :: path and j assume "j \<le> length q" "x = take j q"
      then have "j \<le> length ?p \<and> x = take j ?p" by simp
      then show "\<exists>j \<le> length ?p. x = take j ?p" by blast
    qed
    show ?thesis
    proof (cases r2)
      case None
      with run r1 snoc.prems have w': "w' = w2" by simp
      from mk None os_Mkdir_ok [of ?p perm w1 w2] obtain m k where
        o: "walk (superuser w1) (fs w1) [] q = Inr (Dir m k)" "permits (superuser w1) 1 m k"
           "fs w1 ?p = None" "w2 = w1\<lparr>fs := (fs w1)(?p \<mapsto> Dir (perm AND NOT (umask w1)) Owner)\<rparr>"
        by auto
      have res: "walk (superuser w) (fs w2) [] ?p = Inr ?d"
        using walk_written [OF o(1,2)] o(4) w1 by simp
      have old: "\<forall>x. fs w x \<noteq> None \<longrightarrow> fs w2 x = fs w x"
      proof (intro allI impI)
        fix x assume a: "fs w x \<noteq> None"
        with w1 have e: "fs w1 x = fs w x" by blast
        with a o(3) have "x \<noteq> ?p" by auto
        with e o(4) show "fs w2 x = fs w x" by simp
      qed
      have new: "\<forall>x. fs w x = None \<and> fs w2 x \<noteq> None \<longrightarrow>
                   (\<exists>j \<le> length ?p. x = take j ?p) \<and> fs w2 x = Some ?d"
      proof (intro allI impI)
        fix x assume a: "fs w x = None \<and> fs w2 x \<noteq> None"
        show "(\<exists>j \<le> length ?p. x = take j ?p) \<and> fs w2 x = Some ?d"
        proof (cases "x = ?p")
          case True
          have "?p = take (length ?p) ?p" by simp
          then have "\<exists>j \<le> length ?p. ?p = take j ?p" by blast
          with True o(4) w1 show ?thesis by simp
        next
          case False
          with a o(4) have "fs w x = None \<and> fs w1 x \<noteq> None" by simp
          with w1 obtain j where j: "j \<le> length q" "x = take j q" and d: "fs w1 x = Some ?d"
            by blast
          from pre [OF j] d False o(4) show ?thesis by simp
        qed
      qed
      have u: "umask w2 = umask w" "superuser w2 = superuser w"
        "prime_stream w2 = prime_stream w" "prime_calls w2 = prime_calls w"
        using o(4) w1 by simp_all
      have ex: "\<exists>m k. walk (superuser w) (fs w2) [] ?p = Inr (Dir m k)" using res by blast
      show ?thesis unfolding w' by (intro conjI u ex old new)
    next
      case (Some err)
      with mk have w2: "w2 = w1" by (simp add: os_Mkdir_error)
      from run r1 Some snoc.prems w2 have
        "(\<exists>m k. os_Stat ?p w1 = Inr (Dir m k)) \<and> w' = w1"
        by (auto split: sum.splits node.splits)
      then obtain m k where s: "walk (superuser w1) (fs w1) [] ?p = Inr (Dir m k)" and w': "w' = w1"
        by (auto simp: os_Stat_def split: sum.splits)
      have new: "\<forall>x. fs w x = None \<and> fs w1 x \<noteq> None \<longrightarrow>
                   (\<exists>j \<le> length ?p. x = take j ?p) \<and> fs w1 x = Some ?d"
      proof (intro allI impI)
        fix x assume a: "fs w x = None \<and> fs w1 x \<noteq> None"
        with w1 obtain j where j: "j \<le> length q" "x = take j q" and d: "fs w1 x = Some ?d"
          by blast
        from pre [OF j] d show "(\<exists>j \<le> length ?p. x = take j ?p) \<and> fs w1 x = Some ?d" by simp
      qed
      have u: "umask w1 = umask w" "superuser w1 = superuser w"
        "prime_stream w1 = prime_stream w" "prime_calls w1 = prime_calls w"
        and old: "\<forall>x. fs w x \<noteq> None \<longrightarrow> fs w1 x = fs w x"
        using w1 by blast+
      have ex: "\<exists>m k. walk (superuser w) (fs w1) [] ?p = Inr (Dir m k)" using s u by auto
      show ?thesis unfolding w' by (intro conjI u ex old new)
    qed
  qed
qed

text \<open>The mode \<^verbatim>\<open>0755\<close>: \<^verbatim>\<open>rwx\<close> for the owner, \<^verbatim>\<open>r-x\<close> for the group and for the others.\<close>

lemma mode_bits: "mode = push_bit 6 7 OR push_bit 3 5 OR 5"
  by (simp add: mode_def)

lemma mode_rights:
  "rights mode Owner = 7" "rights mode Group = 5" "rights mode Other = 5"
  by (simp_all add: mode_def rights_def)

lemma CreateDirIfNotExist_exists:
  "os_Stat p w = Inr n \<Longrightarrow> CreateDirIfNotExist p w = (None, w)"
  by (simp add: CreateDirIfNotExist_def)

lemma CreateDirIfNotExist_other_error:
  "os_Stat p w = Inl (PathError op e) \<Longrightarrow> e \<noteq> ENOENT \<Longrightarrow> CreateDirIfNotExist p w = (None, w)"
  by (cases e) (simp_all add: CreateDirIfNotExist_def)

lemma CreateDirIfNotExist_absent:
  "os_Stat p w = Inl (PathError op ENOENT) \<Longrightarrow> CreateDirIfNotExist p w = os_MkdirAll p mode w"
  by (cases "os_MkdirAll p mode w") (auto simp: CreateDirIfNotExist_def split: option.splits)

lemma CreateDirIfNotExist_made:
  assumes "wf_fs (fs w)" "os_Stat p w = Inl (PathError ''stat'' ENOENT)"
    "CreateDirIfNotExist p w = (None, w')"
  shows "os_Stat p w' = Inr (Dir (mode AND NOT (umask w)) Owner) \<and>
         (\<forall>j \<le> length p. \<exists>m k. fs w' (take j p) = Some (Dir m k)) \<and>
         (\<forall>q. fs w q \<noteq> None \<longrightarrow> fs w' q = fs w q) \<and>
         (\<forall>q. fs w q = None \<and> fs w' q \<noteq> None \<longrightarrow>
              (\<exists>j \<le> length p. q = take j p) \<and>
              fs w' q = Some (Dir (mode AND NOT (umask w)) Owner))"
proof -
  from assms(2) have e: "walk (superuser w) (fs w) [] p = Inl ENOENT"
    by (auto simp: os_Stat_def split: sum.splits)
  from walk_ENOENT [OF assms(1) e] have none: "fs w p = None" .
  from assms(2,3) have "os_MkdirAll p mode w = (None, w')"
    by (simp add: CreateDirIfNotExist_absent)
  from os_MkdirAll_ok [OF this] obtain m k where
    r: "superuser w' = superuser w"
       "walk (superuser w) (fs w') [] p = Inr (Dir m k)"
       "\<forall>q. fs w q \<noteq> None \<longrightarrow> fs w' q = fs w q"
       "\<forall>q. fs w q = None \<and> fs w' q \<noteq> None \<longrightarrow>
                (\<exists>j \<le> length p. q = take j p) \<and>
                fs w' q = Some (Dir (mode AND NOT (umask w)) Owner)"
    by blast
  from walk_Inr_lookup [OF r(2)] have here: "fs w' p = Some (Dir m k)" .
  with none r(4) have "Dir m k = Dir (mode AND NOT (umask w)) Owner" by auto
  with r(1,2) have s: "os_Stat p w' = Inr (Dir (mode AND NOT (umask w)) Owner)"
    by (simp add: os_Stat_def)
  have "\<forall>j \<le> length p. \<exists>m k. fs w' (take j p) = Some (Dir m k)"
    using walk_dirs_above [OF r(2)] by blast
  with s r(3,4) show ?thesis by blast
qed

subsection \<open>RandomString\<close>

lemma randomStringSource_length: "length randomStringSource = 64"
  by (simp add: randomStringSource_def)


text \<open>Every prime above 2 is odd, so every number \<^verbatim>\<open>rand.Prime\<close> returns for 64 bits is.\<close>

lemma is_prime_odd: "is_prime p \<Longrightarrow> 2 < p \<Longrightarrow> odd p"
proof
  assume pr: "is_prime p" and big: "2 < p" and ev: "even p"
  from pr have "\<forall>d. d dvd p \<longrightarrow> d = 1 \<or> d = p" by (simp add: is_prime_def)
  with ev have "(2::nat) = 1 \<or> 2 = p" by blast
  with big show False by simp
qed

lemma rand_Prime_post_odd: "rand_Prime_post 64 p \<Longrightarrow> odd p"
proof -
  assume a: "rand_Prime_post 64 p"
  then have "is_prime p" and "(2::nat) ^ 63 \<le> p" by (simp_all add: rand_Prime_post_def)
  moreover have "(2::nat) < 2 ^ 63" by simp
  ultimately show "odd p" using is_prime_odd by fastforce
qed






text \<open>Whatever the random source yields, a string that is returned is made of the source string.\<close>

lemma RandomString_loop_Returns:
  assumes "RandomString_loop ixs s w = (Returns s', w')"
  shows "length s' = length s \<and> fs w' = fs w \<and> umask w' = umask w \<and>
         superuser w' = superuser w \<and> prime_stream w' = prime_stream w \<and>
         (\<forall>i < length s. if i \<in> set ixs then s' ! i \<in> set randomStringSource else s' ! i = s ! i)"
  using assms
proof (induction ixs arbitrary: s w)
  case Nil
  then show ?case by simp
next
  case (Cons i rest)
  from Cons.prems obtain p where p: "prime_stream w (prime_calls w) = Some p"
    by (auto simp: rand_Prime_def randomStringSource_length split: option.splits)
  let ?w1 = "w\<lparr>prime_calls := Suc (prime_calls w)\<rparr>"
  let ?c = "randomStringSource ! ((p mod 2 ^ 64) mod 64)"
  let ?s1 = "s[i := ?c]"
  have c: "?c \<in> set randomStringSource" by (simp add: randomStringSource_length)
  have "RandomString_loop (i # rest) s w = RandomString_loop rest ?s1 ?w1"
    using p by (simp add: rand_Prime_def randomStringSource_length)
  with Cons.prems have "RandomString_loop rest ?s1 ?w1 = (Returns s', w')" by simp
  from Cons.IH [OF this] have
    r: "length s' = length ?s1" "fs w' = fs ?w1" "umask w' = umask ?w1"
       "\<forall>j < length ?s1. if j \<in> set rest then s' ! j \<in> set randomStringSource else s' ! j = ?s1 ! j"
       "superuser w' = superuser ?w1" "prime_stream w' = prime_stream ?w1"
    by simp_all
  have "\<forall>j < length s. if j \<in> set (i # rest) then s' ! j \<in> set randomStringSource else s' ! j = s ! j"
  proof (intro allI impI)
    fix j assume j: "j < length s"
    with r(4) have h: "if j \<in> set rest then s' ! j \<in> set randomStringSource else s' ! j = ?s1 ! j"
      by simp
    show "if j \<in> set (i # rest) then s' ! j \<in> set randomStringSource else s' ! j = s ! j"
    proof (cases "j \<in> set rest")
      case True
      with h show ?thesis by simp
    next
      case False
      with h have e: "s' ! j = ?s1 ! j" by simp
      show ?thesis
      proof (cases "j = i")
        case True
        with e j c show ?thesis by simp
      next
        case ne: False
        with e False show ?thesis by simp
      qed
    qed
  qed
  with r(1,2,3,5,6) show ?case by simp
qed

lemma RandomString_Returns:
  assumes "RandomString n w = (Returns s, w')"
  shows "length s = nat n \<and> set s \<subseteq> set randomStringSource \<and> fs w' = fs w \<and>
         umask w' = umask w \<and> superuser w' = superuser w \<and> prime_stream w' = prime_stream w"
proof -
  from assms have n: "0 \<le> n"
    and l: "RandomString_loop [0..<nat n] (replicate (nat n) (CHR 0x00)) w = (Returns s, w')"
    by (auto simp: RandomString_def split: if_splits)
  from RandomString_loop_Returns [OF l] have
    r: "length s = nat n" "fs w' = fs w" "umask w' = umask w"
       "\<forall>i < nat n. s ! i \<in> set randomStringSource" "superuser w' = superuser w"
       "prime_stream w' = prime_stream w"
    by simp_all
  have "set s \<subseteq> set randomStringSource"
  proof
    fix c assume "c \<in> set s"
    then obtain i where "i < length s" "s ! i = c" by (auto simp: in_set_conv_nth)
    with r(1,4) show "c \<in> set randomStringSource" by metis
  qed
  with r show ?thesis by simp
qed

text \<open>A random source that never fails: the string is returned.\<close>

lemma RandomString_loop_total:
  assumes "\<forall>j. prime_stream w j \<noteq> None"
  shows "\<exists>s' w'. RandomString_loop ixs s w = (Returns s', w')"
  using assms
proof (induction ixs arbitrary: s w)
  case Nil
  show ?case by simp
next
  case (Cons i rest)
  from Cons.prems obtain p where p: "prime_stream w (prime_calls w) = Some p" by auto
  let ?w1 = "w\<lparr>prime_calls := Suc (prime_calls w)\<rparr>"
  have "\<forall>j. prime_stream ?w1 j \<noteq> None" using Cons.prems by simp
  from Cons.IH [OF this] p show ?case
    by (simp add: rand_Prime_def randomStringSource_length)
qed

lemma RandomString_total:
  assumes "\<forall>j. prime_stream w j \<noteq> None" "0 \<le> n"
  shows "\<exists>s w'. RandomString n w = (Returns s, w')"
  using assms RandomString_loop_total [OF assms(1)] by (simp add: RandomString_def)

text \<open>A random source that yields one number again and again.\<close>

lemma fold_update_upt:
  "k \<le> length s \<Longrightarrow> fold (\<lambda>i s. s[i := c]) [0..<k] s = replicate k c @ drop k s"
proof (induction k)
  case 0
  show ?case by simp
next
  case (Suc k)
  then have k: "k < length s" by simp
  have "fold (\<lambda>i s. s[i := c]) [0..<Suc k] s = (replicate k c @ drop k s)[k := c]"
    using Suc by simp
  also have "\<dots> = replicate k c @ (drop k s)[0 := c]" by (simp add: list_update_append)
  also have "drop k s = s ! k # drop (Suc k) s" using k by (simp add: Cons_nth_drop_Suc)
  finally show ?case by (simp add: replicate_append_same)
qed

lemma RandomString_loop_const:
  assumes "\<forall>j. prime_stream w j = Some p"
  shows "RandomString_loop ixs s w =
           (Returns (fold (\<lambda>i s. s[i := randomStringSource ! ((p mod 2 ^ 64) mod 64)]) ixs s),
            w\<lparr>prime_calls := prime_calls w + length ixs\<rparr>)"
  using assms
proof (induction ixs arbitrary: s w)
  case Nil
  show ?case by simp
next
  case (Cons i rest)
  let ?w1 = "w\<lparr>prime_calls := Suc (prime_calls w)\<rparr>"
  have "\<forall>j. prime_stream ?w1 j = Some p" using Cons.prems by simp
  from Cons.IH [OF this] Cons.prems show ?case
    by (simp add: rand_Prime_def randomStringSource_length)
qed

lemma RandomString_const:
  assumes "\<forall>j. prime_stream w j = Some p" and "0 \<le> n"
  shows "RandomString n w =
           (Returns (replicate (nat n) (randomStringSource ! ((p mod 2 ^ 64) mod 64))),
            w\<lparr>prime_calls := prime_calls w + nat n\<rparr>)"
  using assms(2) RandomString_loop_const [OF assms(1)]
  by (simp add: RandomString_def fold_update_upt)

lemma RandomString_25_ex:
  assumes "prime_stream w = (\<lambda>_. Some 18446744073709551557)"
  shows "RandomString 25 w =
     (Returns ''fffffffffffffffffffffffff'', w\<lparr>prime_calls := prime_calls w + 25\<rparr>)"
proof -
  have r: "replicate 25 (CHR ''f'') = ''fffffffffffffffffffffffff''"
    by (simp add: eval_nat_numeral)
  have c: "randomStringSource ! ((18446744073709551557 mod 2 ^ 64) mod 64) = CHR ''f''"
    by (simp add: randomStringSource_def)
  from assms have "\<forall>j. prime_stream w j = Some 18446744073709551557" by simp
  from RandomString_const [OF this, of 25] r c show ?thesis by simp
qed

subsection \<open>The extension of a name\<close>

lemma Ext_scan_suffix: "\<exists>pre. rev xs @ acc = pre @ Ext_scan xs acc"
proof (induction xs arbitrary: acc)
  case Nil
  show ?case by simp
next
  case (Cons c front)
  from Cons.IH [of "c # acc"] show ?case by auto
qed

lemma filepath_Ext_suffix: "\<exists>pre. name = pre @ filepath_Ext name"
  using Ext_scan_suffix [of "rev name" "[]"] by (simp add: filepath_Ext_def)

lemma Ext_scan_dot: "Ext_scan xs acc = [] \<or> hd (Ext_scan xs acc) = CHR ''.''"
  by (induction xs arbitrary: acc) auto

lemma filepath_Ext_dot: "filepath_Ext name = [] \<or> hd (filepath_Ext name) = CHR ''.''"
  by (simp add: filepath_Ext_def Ext_scan_dot)

lemma Ext_scan_no_sep:
  "CHR ''/'' \<notin> set acc \<Longrightarrow> CHR ''/'' \<notin> set (Ext_scan xs acc)"
  by (induction xs arbitrary: acc) auto

lemma filepath_Ext_no_sep: "CHR ''/'' \<notin> set (filepath_Ext name)"
  by (simp add: filepath_Ext_def Ext_scan_no_sep)

text \<open>Joining a directory and a plain name appends the name.\<close>

lemma split_sep_plain: "CHR ''/'' \<notin> set name \<Longrightarrow> split_sep name cur = [cur @ name]"
  by (induction name arbitrary: cur) auto

lemma filepath_Join_plain:
  assumes "CHR ''/'' \<notin> set name" "name \<noteq> []" "name \<noteq> ''.''" "name \<noteq> ''..''"
  shows "filepath_Join d name = d @ [name]"
  using assms by (simp add: filepath_Join_def split_sep_plain Clean_step_def)

lemma random_name_plain:
  assumes "length s = 25" "set s \<subseteq> set randomStringSource"
  shows "filepath_Join d (s @ filepath_Ext name) = d @ [s @ filepath_Ext name]"
proof (rule filepath_Join_plain)
  have "CHR ''/'' \<notin> set randomStringSource" by (simp add: randomStringSource_def)
  with assms(2) have "CHR ''/'' \<notin> set s" by blast
  then show "CHR ''/'' \<notin> set (s @ filepath_Ext name)" using filepath_Ext_no_sep by simp
next
  from assms(1) have l: "25 \<le> length (s @ filepath_Ext name)" by simp
  have ne: "s @ filepath_Ext name \<noteq> x" if "length x < 25" for x
    using l that by auto
  show "s @ filepath_Ext name \<noteq> []" by (rule ne) simp
  show "s @ filepath_Ext name \<noteq> ''.''" by (rule ne) simp
  show "s @ filepath_Ext name \<noteq> ''..''" by (rule ne) simp
qed

subsection \<open>The read offset of an opened part\<close>

text \<open>
  The first \<^verbatim>\<open>Read\<close> into a buffer fills it from the start of the content and leaves the
  read offset behind the bytes it read; \<^verbatim>\<open>Seek(0, 0)\<close> sets the offset to 0 wherever it
  was; \<^verbatim>\<open>io.Copy\<close> copies what lies behind the offset.
\<close>

lemma File_Read_ok:
  "File_Read hdr 0 buff = (None, buff', off) \<longleftrightarrow>
     read_err (faults hdr) = None \<and> content hdr \<noteq> [] \<and>
     buff' = take (length buff) (content hdr) @ drop (length (content hdr)) buff \<and>
     off = min (length (content hdr)) (length buff)"
  unfolding File_Read_def by (auto split: option.splits simp: Let_def min_def)

lemma File_Read_sniff:
  assumes "read_err (faults hdr) = None" "content hdr \<noteq> []"
  shows "File_Read hdr 0 (replicate 512 0) =
           (None, sniff_window (content hdr), min (length (content hdr)) 512)"
  using assms by (simp add: File_Read_def sniff_window_def Let_def min_def)

lemma File_Seek_start:
  "File_Seek hdr 0 0 off =
     (case seek_err (faults hdr) of Some err \<Rightarrow> (Some err, off) | None \<Rightarrow> (None, 0))"
  by (simp add: File_Seek_def split: option.splits)

lemma io_Copy_from:
  assumes "copy_err (faults hdr) = None"
  shows "io_Copy dst hdr off w =
           ((int (length (content hdr) - off), None),
            w\<lparr>fs := write_bytes (fs w) dst (drop off (content hdr))\<rparr>)"
  using assms by (simp add: io_Copy_def)

lemma io_Copy_ok:
  "io_Copy dst hdr off w = ((n, None), w') \<longleftrightarrow>
     copy_err (faults hdr) = None \<and> n = int (length (content hdr) - off) \<and>
     w' = w\<lparr>fs := write_bytes (fs w) dst (drop off (content hdr))\<rparr>"
  unfolding io_Copy_def by (auto split: option.splits)

subsection \<open>The function literal\<close>


lemma UploadFiles_func_success:
  assumes "UploadFiles_func L t d rn hdr ufs w = (Returns (ufs', None), w')"
  shows "\<exists>newFileName w1 w2.
           open_err (faults hdr) = None \<and> read_err (faults hdr) = None \<and> content hdr \<noteq> [] \<and>
           allowed_type L t (sniff_window (content hdr)) \<and>
           seek_err (faults hdr) = None \<and> copy_err (faults hdr) = None \<and>
           (if rn then (\<exists>s. RandomString 25 w = (Returns s, w1) \<and>
                             newFileName = s @ filepath_Ext (Filename hdr))
            else newFileName = Filename hdr \<and> w1 = w) \<and>
           os_Create (filepath_Join d newFileName) w1 = (None, w2) \<and>
           w' = w2\<lparr>fs := write_bytes (fs w2) (filepath_Join d newFileName) (content hdr)\<rparr> \<and>
           ufs' = ufs @ [\<lparr>NewFileName = newFileName, OriginalFileName = Filename hdr,
                          FileSize = int (length (content hdr))\<rparr>]"
proof -
  from assms have op: "open_err (faults hdr) = None"
    unfolding UploadFiles_func_def by (auto split: option.splits)
  obtain e1 buff off1 where rd: "File_Read hdr 0 (replicate 512 0) = (e1, buff, off1)"
    by (cases "File_Read hdr 0 (replicate 512 0)")
  from assms op rd have e1: "e1 = None"
    unfolding UploadFiles_func_def by (cases e1) auto
  from rd e1 have r: "read_err (faults hdr) = None" "content hdr \<noteq> []"
    "buff = sniff_window (content hdr)"
    by (simp_all add: File_Read_ok sniff_window_def)
  have al: "allowed_type L t (sniff_window (content hdr))"
  proof (rule ccontr)
    assume "\<not> allowed_type L t (sniff_window (content hdr))"
    with assms op rd e1 r(3) show False
      unfolding UploadFiles_func_def allowed_type_def Let_def by auto
  qed
  then have al': "(if 0 < length (AllowedFileTypes t)
             then list_ex (EqualFold L (DetectContentType L (sniff_window (content hdr))))
                    (AllowedFileTypes t)
             else True)"
    by (auto simp: allowed_type_def)
  have sk: "seek_err (faults hdr) = None"
  proof (rule ccontr)
    assume "seek_err (faults hdr) \<noteq> None"
    with op rd e1 r(3) al' assms show False
      unfolding UploadFiles_func_def Let_def
      by (cases "AllowedFileTypes t = []") (auto simp: File_Seek_start)
  qed
  obtain x1 w1 where nm: "(if rn
            then (case RandomString 25 w of
                    (Panics m, w1) \<Rightarrow> (Panics m, w1)
                  | (Returns s, w1) \<Rightarrow> (Returns (s @ filepath_Ext (Filename hdr)), w1))
            else (Returns (Filename hdr), w)) = (x1, w1)"
    by (cases "if rn
            then (case RandomString 25 w of
                    (Panics m, w1) \<Rightarrow> (Panics m, w1)
                  | (Returns s, w1) \<Rightarrow> (Returns (s @ filepath_Ext (Filename hdr)), w1))
            else (Returns (Filename hdr), w)")
  have mid: "UploadFiles_func L t d rn hdr ufs w =
     (case x1 of
        Panics m \<Rightarrow> (Panics m, w1)
      | Returns newFileName \<Rightarrow>
     (case os_Create (filepath_Join d newFileName) w1 of
        (Some err, w2) \<Rightarrow> (Returns ([], Some err), w2)
      | (None, w2) \<Rightarrow>
     (case io_Copy (filepath_Join d newFileName) hdr 0 w2 of
        ((fileSize, Some err), w3) \<Rightarrow> (Returns ([], Some err), w3)
      | ((fileSize, None), w3) \<Rightarrow>
          (Returns (ufs @
                    [\<lparr>NewFileName = newFileName, OriginalFileName = Filename hdr,
                      FileSize = fileSize\<rparr>], None), w3))))"
    unfolding UploadFiles_func_def
    using op al' sk
    by (cases "AllowedFileTypes t = []") (simp_all add: rd e1 r(3) File_Seek_start nm)
  from assms mid obtain newFileName where x1: "x1 = Returns newFileName"
    by (cases x1) auto
  obtain e2 w2 where cr: "os_Create (filepath_Join d newFileName) w1 = (e2, w2)"
    by (cases "os_Create (filepath_Join d newFileName) w1")
  from assms mid x1 cr have e2: "e2 = None" by (cases e2) auto
  obtain n e3 w3 where cp: "io_Copy (filepath_Join d newFileName) hdr 0 w2 = ((n, e3), w3)"
    by (cases "io_Copy (filepath_Join d newFileName) hdr 0 w2") auto
  from assms mid x1 cr e2 cp have e3: "e3 = None" by (cases e3) auto
  from cp e3 have c: "copy_err (faults hdr) = None" "n = int (length (content hdr))"
    "w3 = w2\<lparr>fs := write_bytes (fs w2) (filepath_Join d newFileName) (content hdr)\<rparr>"
    by (simp_all add: io_Copy_ok)
  from assms mid x1 cr e2 cp e3 c have
    res: "w' = w2\<lparr>fs := write_bytes (fs w2) (filepath_Join d newFileName) (content hdr)\<rparr>"
         "ufs' = ufs @ [\<lparr>NewFileName = newFileName, OriginalFileName = Filename hdr,
                          FileSize = int (length (content hdr))\<rparr>]"
    by simp_all
  have name: "if rn then (\<exists>s. RandomString 25 w = (Returns s, w1) \<and>
                             newFileName = s @ filepath_Ext (Filename hdr))
            else newFileName = Filename hdr \<and> w1 = w"
    using nm x1 by (auto split: if_splits prod.splits exec.splits)
  from op r(1,2) al sk c(1) name cr e2 res show ?thesis by blast
qed

text \<open>What a successful run of the function literal leaves behind.\<close>

lemma UploadFiles_func_stored:
  assumes "UploadFiles_func L t d rn hdr ufs w = (Returns (ufs', None), w')"
  shows "\<exists>rec fm fk. ufs' = ufs @ [rec] \<and>
           OriginalFileName rec = Filename hdr \<and>
           FileSize rec = int (length (content hdr)) \<and>
           fs w' = (fs w)(filepath_Join d (NewFileName rec) \<mapsto> File fm fk (content hdr)) \<and>
           umask w' = umask w \<and> superuser w' = superuser w \<and>
           walk (superuser w') (fs w') [] (filepath_Join d (NewFileName rec)) =
             Inr (File fm fk (content hdr)) \<and>
           (fs w (filepath_Join d (NewFileName rec)) = None \<longrightarrow>
              fm = 0x1B6 AND NOT (umask w) \<and> fk = Owner)"
proof -
  from UploadFiles_func_success [OF assms] obtain newFileName w1 w2 where
    nm: "if rn then (\<exists>s. RandomString 25 w = (Returns s, w1) \<and>
                         newFileName = s @ filepath_Ext (Filename hdr))
         else newFileName = Filename hdr \<and> w1 = w"
    and cr: "os_Create (filepath_Join d newFileName) w1 = (None, w2)"
    and w': "w' = w2\<lparr>fs := write_bytes (fs w2) (filepath_Join d newFileName) (content hdr)\<rparr>"
    and u: "ufs' = ufs @ [\<lparr>NewFileName = newFileName, OriginalFileName = Filename hdr,
                          FileSize = int (length (content hdr))\<rparr>]"
    by blast
  let ?p = "filepath_Join d newFileName"
  have f1: "fs w1 = fs w" "umask w1 = umask w" "superuser w1 = superuser w"
    using nm RandomString_Returns by (auto split: if_splits)
  from os_Create_ok [OF cr] obtain m k fm fk where
    c: "?p \<noteq> []" "walk (superuser w1) (fs w1) [] (butlast ?p) = Inr (Dir m k)"
       "permits (superuser w1) 1 m k"
       "w2 = w1\<lparr>fs := (fs w1)(?p \<mapsto> File fm fk [])\<rparr>"
    by blast
  have fw: "fs w' = (fs w)(?p \<mapsto> File fm fk (content hdr))"
    using w' c(4) f1 by (simp add: write_bytes_def)
  have us: "umask w' = umask w" "superuser w' = superuser w" using w' c(4) f1 by simp_all
  from c(1) have sp: "?p = butlast ?p @ [last ?p]" by simp
  have "walk (superuser w1) ((fs w1)(butlast ?p @ [last ?p] \<mapsto> File fm fk (content hdr))) []
          (butlast ?p @ [last ?p]) = Inr (File fm fk (content hdr))"
    using c(2,3) by (rule walk_written)
  with sp have wk: "walk (superuser w') (fs w') [] ?p = Inr (File fm fk (content hdr))"
    using fw f1 us by simp
  have fresh: "fs w ?p = None \<longrightarrow> fm = 0x1B6 AND NOT (umask w) \<and> fk = Owner"
  proof
    assume n: "fs w ?p = None"
    obtain x xs where p: "?p = x # xs" using c(1) by (cases ?p) auto
    have "os_Create ?p w1 =
            (None, w1\<lparr>fs := (fs w1)(?p \<mapsto> File (0x1B6 AND NOT (umask w1)) Owner [])\<rparr>) \<or>
          (\<exists>err. os_Create ?p w1 = (Some err, w1))"
      unfolding os_Create_def p using c(2,3) n f1(1) unfolding p
      by (simp del: butlast.simps)
    with cr c(4) have
      "w1\<lparr>fs := (fs w1)(?p \<mapsto> File fm fk [])\<rparr> =
       w1\<lparr>fs := (fs w1)(?p \<mapsto> File (0x1B6 AND NOT (umask w1)) Owner [])\<rparr>"
      by auto
    then have "((fs w1)(?p \<mapsto> File fm fk [])) ?p =
               ((fs w1)(?p \<mapsto> File (0x1B6 AND NOT (umask w1)) Owner [])) ?p"
      by (metis world.select_convs(1) world.surjective world.update_convs(1))
    with f1(2) show "fm = 0x1B6 AND NOT (umask w) \<and> fk = Owner" by simp
  qed
  from u fw us wk fresh show ?thesis by simp
qed

lemma UploadFiles_func_named:
  assumes "UploadFiles_func L t d rn hdr ufs w = (Returns (ufs', None), w')"
  shows "\<exists>rec. ufs' = ufs @ [rec] \<and> named_by rn hdr rec"
proof -
  from UploadFiles_func_success [OF assms] obtain newFileName w1 where
    nm: "if rn then (\<exists>s. RandomString 25 w = (Returns s, w1) \<and>
                         newFileName = s @ filepath_Ext (Filename hdr))
         else newFileName = Filename hdr \<and> w1 = w"
    and u: "ufs' = ufs @ [\<lparr>NewFileName = newFileName, OriginalFileName = Filename hdr,
                          FileSize = int (length (content hdr))\<rparr>]"
    by blast
  have "named_by rn hdr \<lparr>NewFileName = newFileName, OriginalFileName = Filename hdr,
                          FileSize = int (length (content hdr))\<rparr>"
  proof (cases rn)
    case True
    with nm obtain s where s: "RandomString 25 w = (Returns s, w1)"
      "newFileName = s @ filepath_Ext (Filename hdr)" by auto
    from RandomString_Returns [OF s(1)] have "length s = 25" "set s \<subseteq> set randomStringSource"
      by simp_all
    with s(2) True show ?thesis unfolding named_by_def by auto
  next
    case False
    with nm show ?thesis unfolding named_by_def by simp
  qed
  with u show ?thesis by blast
qed

text \<open>
  The function literal reads the declared name, the bytes and the stream of a file
  header, and nothing else of it.
\<close>

lemma UploadFiles_func_reads:
  assumes "Filename h1 = Filename h2" "content h1 = content h2" "faults h1 = faults h2"
  shows "UploadFiles_func L t d rn h1 ufs w = UploadFiles_func L t d rn h2 ufs w"
proof -
  have r: "File_Read h1 = File_Read h2"
    unfolding File_Read_def assms by (rule refl)
  have s: "File_Seek h1 = File_Seek h2"
    unfolding File_Seek_def assms by (rule refl)
  have c: "\<And>p. io_Copy p h1 = io_Copy p h2"
    unfolding io_Copy_def assms by (rule refl)
  show ?thesis unfolding UploadFiles_func_def r s c assms by (rule refl)
qed

lemma UploadFiles_func_Size_unused:
  "UploadFiles_func L t d rn (hdr\<lparr>Size := z\<rparr>) ufs w = UploadFiles_func L t d rn hdr ufs w"
  by (rule UploadFiles_func_reads) simp_all

lemma UploadFiles_func_declared_type_unused:
  "UploadFiles_func L t d rn (hdr\<lparr>Header_ContentType := c\<rparr>) ufs w =
   UploadFiles_func L t d rn hdr ufs w"
  by (rule UploadFiles_func_reads) simp_all

text \<open>
  The decision on the type of a part that opens and is not empty: it is taken on the
  sniffed type of the 512-byte buffer and never on the declared type; a refusal ends the
  loop with the error and the nil slice; no list of types allows every type; from 512
  bytes on the buffer is the beginning of the content.
\<close>

lemma sniff_window_long: "512 \<le> length c \<Longrightarrow> sniff_window c = take 512 c"
  by (simp add: sniff_window_def)

lemma UploadFiles_func_not_permitted:
  assumes "open_err (faults hdr) = None" "read_err (faults hdr) = None" "content hdr \<noteq> []"
    and "\<not> allowed_type L t (sniff_window (content hdr))"
  shows "UploadFiles_func L t d rn hdr ufs w =
           (Returns ([], Some (errors_New ''the uploaded file type is not permitted'')), w)"
  using assms(1,4) unfolding UploadFiles_func_def
  by (auto simp: File_Read_sniff [OF assms(2,3)] allowed_type_def Let_def)

lemma type_decision:
  assumes "open_err (faults hdr) = None" "read_err (faults hdr) = None" "content hdr \<noteq> []"
  shows "(\<not> allowed_type L t (sniff_window (content hdr)) \<longrightarrow>
            UploadFiles_func L t d rn hdr ufs w =
              (Returns ([], Some (errors_New ''the uploaded file type is not permitted'')), w) \<and>
            range_fHeaders L t d rn (hdr # rest) ufs w =
              (Returns ([], Some (errors_New ''the uploaded file type is not permitted'')), w)) \<and>
         (AllowedFileTypes t = [] \<longrightarrow> allowed_type L t (sniff_window (content hdr))) \<and>
         (512 \<le> length (content hdr) \<longrightarrow> sniff_window (content hdr) = take 512 (content hdr)) \<and>
         UploadFiles_func L t d rn (hdr\<lparr>Header_ContentType := c\<rparr>) ufs w =
           UploadFiles_func L t d rn hdr ufs w"
proof (intro conjI impI)
  assume n: "\<not> allowed_type L t (sniff_window (content hdr))"
  from UploadFiles_func_not_permitted [OF assms n]
  show f: "UploadFiles_func L t d rn hdr ufs w =
      (Returns ([], Some (errors_New ''the uploaded file type is not permitted'')), w)" .
  then show "range_fHeaders L t d rn (hdr # rest) ufs w =
      (Returns ([], Some (errors_New ''the uploaded file type is not permitted'')), w)"
    by simp
next
  assume "AllowedFileTypes t = []"
  then show "allowed_type L t (sniff_window (content hdr))" by (simp add: allowed_type_def)
next
  assume "512 \<le> length (content hdr)"
  then show "sniff_window (content hdr) = take 512 (content hdr)" by (rule sniff_window_long)
next
  show "UploadFiles_func L t d rn (hdr\<lparr>Header_ContentType := c\<rparr>) ufs w =
           UploadFiles_func L t d rn hdr ufs w"
    by (rule UploadFiles_func_declared_type_unused)
qed

text \<open>
  A part of at least one byte whose type is allowed, on a stream and a disk that work,
  into a directory that the process may search and write and where the stored name is
  free, or is a file that the process may read and write, under a umask that leaves the
  owner the right to read: the file is stored, and read back it is the content.
\<close>

lemma os_Create_in_dir:
  assumes "walk (superuser w) (fs w) [] d = Inr (Dir m k)" "permits (superuser w) 1 m k"
    and "case fs w (d @ [c]) of
           None \<Rightarrow> permits (superuser w) 2 m k
         | Some (Dir _ _) \<Rightarrow> False
         | Some (File fm fk _) \<Rightarrow> permits (superuser w) 6 fm fk"
  shows "os_Create (d @ [c]) w =
           (None, w\<lparr>fs := (fs w)(d @ [c] \<mapsto>
              (case fs w (d @ [c]) of
                 None \<Rightarrow> File (0x1B6 AND NOT (umask w)) Owner []
               | Some (Dir dm dk) \<Rightarrow> Dir dm dk
               | Some (File fm fk _) \<Rightarrow> File fm fk []))\<rparr>)"
proof -
  obtain x xs where p: "d @ [c] = x # xs" by (cases "d @ [c]") simp_all
  have b: "butlast (x # xs) = d" using p by (metis butlast_snoc)
  show ?thesis unfolding os_Create_def p
    using assms b unfolding p
    by (auto simp del: butlast.simps split: option.splits node.splits)
qed

lemma stored_file_reads_back:
  assumes "open_err (faults hdr) = None" "read_err (faults hdr) = None"
    "seek_err (faults hdr) = None" "copy_err (faults hdr) = None"
    and "content hdr \<noteq> []"
    and "allowed_type L t (sniff_window (content hdr))"
    and "os_Stat d w = Inr (Dir m k)"
    and "permits (superuser w) 1 m k" "permits (superuser w) 2 m k"
    and "permits (superuser w) 4 (0x1B6 AND NOT (umask w)) Owner"
    and "\<forall>c. case fs w (d @ [c]) of
               None \<Rightarrow> True
             | Some (Dir _ _) \<Rightarrow> False
             | Some (File fm fk _) \<Rightarrow>
                 permits (superuser w) 6 fm fk \<and> permits (superuser w) 4 fm fk"
    and "if rn then (\<forall>j. prime_stream w j \<noteq> None)
         else CHR ''/'' \<notin> set (Filename hdr) \<and> Filename hdr \<notin> {[], ''.'', ''..''}"
  shows "\<exists>rec w'. UploadFiles_func L t d rn hdr ufs w = (Returns (ufs @ [rec], None), w') \<and>
           FileSize rec = int (length (content hdr)) \<and>
           os_ReadFile (filepath_Join d (NewFileName rec)) w' = Inr (content hdr)"
proof -
  from assms(7) have dir: "walk (superuser w) (fs w) [] d = Inr (Dir m k)"
    by (auto simp: os_Stat_def split: sum.splits)
  have "\<exists>name w1. (if rn
            then (case RandomString 25 w of
                    (Panics m, w1) \<Rightarrow> (Panics m, w1)
                  | (Returns s, w1) \<Rightarrow> (Returns (s @ filepath_Ext (Filename hdr)), w1))
            else (Returns (Filename hdr), w)) = (Returns name, w1) \<and>
          fs w1 = fs w \<and> umask w1 = umask w \<and> superuser w1 = superuser w \<and>
          filepath_Join d name = d @ [name]"
  proof (cases rn)
    case True
    with assms(12) have "\<forall>j. prime_stream w j \<noteq> None" by simp
    from RandomString_total [OF this, of 25] obtain s w1 where
      s: "RandomString 25 w = (Returns s, w1)" by auto
    from RandomString_Returns [OF s] have
      p: "length s = 25" "set s \<subseteq> set randomStringSource" "fs w1 = fs w"
         "umask w1 = umask w" "superuser w1 = superuser w" by simp_all
    from random_name_plain [OF p(1,2)] s p(3,4,5) True show ?thesis by simp
  next
    case False
    with assms(12) have "filepath_Join d (Filename hdr) = d @ [Filename hdr]"
      by (intro filepath_Join_plain) auto
    with False show ?thesis by simp
  qed
  then obtain name w1 where
    nm: "(if rn
            then (case RandomString 25 w of
                    (Panics m, w1) \<Rightarrow> (Panics m, w1)
                  | (Returns s, w1) \<Rightarrow> (Returns (s @ filepath_Ext (Filename hdr)), w1))
            else (Returns (Filename hdr), w)) = (Returns name, w1)"
    and f1: "fs w1 = fs w" "umask w1 = umask w" "superuser w1 = superuser w"
    and j: "filepath_Join d name = d @ [name]"
    by blast
  let ?p = "d @ [name]"
  let ?n0 = "case fs w1 ?p of
                 None \<Rightarrow> File (0x1B6 AND NOT (umask w1)) Owner []
               | Some (Dir dm dk) \<Rightarrow> Dir dm dk
               | Some (File fm fk _) \<Rightarrow> File fm fk []"
  from assms(11) have slot: "case fs w ?p of
               None \<Rightarrow> True
             | Some (Dir _ _) \<Rightarrow> False
             | Some (File fm fk _) \<Rightarrow>
                 permits (superuser w) 6 fm fk \<and> permits (superuser w) 4 fm fk"
    by (rule spec)
  have pre: "case fs w1 ?p of
           None \<Rightarrow> permits (superuser w1) 2 m k
         | Some (Dir _ _) \<Rightarrow> False
         | Some (File fm fk _) \<Rightarrow> permits (superuser w1) 6 fm fk"
    using slot assms(9) f1 by (auto split: option.splits node.splits)
  have dir1: "walk (superuser w1) (fs w1) [] d = Inr (Dir m k)" "permits (superuser w1) 1 m k"
    using dir assms(8) f1 by simp_all
  have cr: "os_Create ?p w1 = (None, w1\<lparr>fs := (fs w1)(?p \<mapsto> ?n0)\<rparr>)"
    using dir1 pre by (rule os_Create_in_dir)
  have "\<exists>fm fk. ?n0 = File fm fk [] \<and> permits (superuser w) 4 fm fk"
    using slot assms(10) f1 by (auto split: option.splits node.splits)
  then obtain fm fk where n0: "?n0 = File fm fk []" "permits (superuser w) 4 fm fk"
    by blast
  let ?rec = "\<lparr>NewFileName = name, OriginalFileName = Filename hdr,
               FileSize = int (length (content hdr))\<rparr>"
  let ?w' = "w1\<lparr>fs := (fs w1)(?p \<mapsto> File fm fk (content hdr))\<rparr>"
  have al: "(if 0 < length (AllowedFileTypes t)
             then list_ex (EqualFold L (DetectContentType L (sniff_window (content hdr))))
                    (AllowedFileTypes t)
             else True)"
    using assms(6) by (auto simp: allowed_type_def)
  have rd: "File_Read hdr 0 (replicate 512 0) =
              (None, sniff_window (content hdr), min (length (content hdr)) 512)"
    using assms(2,5) by (rule File_Read_sniff)
  have cr': "os_Create ?p w1 = (None, w1\<lparr>fs := (fs w1)(?p \<mapsto> File fm fk [])\<rparr>)"
    using cr n0(1) by simp
  have run: "UploadFiles_func L t d rn hdr ufs w = (Returns (ufs @ [?rec], None), ?w')"
    unfolding UploadFiles_func_def
    using assms(1,3,4) al
    by (cases "AllowedFileTypes t = []")
       (simp_all add: rd File_Seek_start nm j cr' io_Copy_def write_bytes_def)
  have "walk (superuser w1) ((fs w1)(?p \<mapsto> File fm fk (content hdr))) [] ?p =
          Inr (File fm fk (content hdr))"
    using dir assms(8) f1 by (intro walk_written) simp_all
  then have "os_ReadFile (filepath_Join d (NewFileName ?rec)) ?w' = Inr (content hdr)"
    using n0(2) f1 j by (simp add: os_ReadFile_def)
  with run show ?thesis by (intro exI [of _ ?rec] exI [of _ ?w']) simp
qed

subsection \<open>The loops and the two methods\<close>



lemma range_fHeaders_all2:
  assumes step: "\<And>hdr ufs w ufs' w'.
            UploadFiles_func L t d rn hdr ufs w = (Returns (ufs', None), w') \<Longrightarrow>
            \<exists>rec. ufs' = ufs @ [rec] \<and> Q rec hdr"
    and run: "range_fHeaders L t d rn hdrs ufs w = (Returns (ufs', None), w')"
  shows "\<exists>recs. ufs' = ufs @ recs \<and> list_all2 Q recs hdrs"
  using run
proof (induction hdrs arbitrary: ufs w)
  case Nil
  then show ?case by simp
next
  case (Cons hdr rest)
  from Cons.prems obtain ufs1 w1 where
    one: "UploadFiles_func L t d rn hdr ufs w = (Returns (ufs1, None), w1)"
    and more: "range_fHeaders L t d rn rest ufs1 w1 = (Returns (ufs', None), w')"
    by (auto split: prod.splits exec.splits option.splits)
  from step [OF one] obtain rec where rec: "ufs1 = ufs @ [rec]" "Q rec hdr" by blast
  from Cons.IH [OF more] obtain recs where recs: "ufs' = ufs1 @ recs" "list_all2 Q recs rest"
    by blast
  from rec recs have "ufs' = ufs @ (rec # recs)" "list_all2 Q (rec # recs) (hdr # rest)"
    by simp_all
  then show ?case by blast
qed

lemma range_File_all2:
  assumes step: "\<And>hdr ufs w ufs' w'.
            UploadFiles_func L t d rn hdr ufs w = (Returns (ufs', None), w') \<Longrightarrow>
            \<exists>rec. ufs' = ufs @ [rec] \<and> Q rec hdr"
    and run: "range_File L t d rn form ufs w = (Returns (ufs', None), w')"
  shows "\<exists>recs. ufs' = ufs @ recs \<and> list_all2 Q recs (concat (map snd form))"
  using run
proof (induction form arbitrary: ufs w)
  case Nil
  then show ?case by simp
next
  case (Cons e rest)
  obtain name hs where e: "e = (name, hs)" by (cases e)
  from Cons.prems obtain ufs1 w1 where
    one: "range_fHeaders L t d rn hs ufs w = (Returns (ufs1, None), w1)"
    and more: "range_File L t d rn rest ufs1 w1 = (Returns (ufs', None), w')"
    unfolding e by (auto split: prod.splits exec.splits option.splits)
  have "\<exists>r1. ufs1 = ufs @ r1 \<and> list_all2 Q r1 hs"
    by (rule range_fHeaders_all2 [where Q = Q, OF _ one]) (rule step)
  then obtain r1 where r1: "ufs1 = ufs @ r1" "list_all2 Q r1 hs" by blast
  from Cons.IH [OF more] obtain r2 where
    r2: "ufs' = ufs1 @ r2" "list_all2 Q r2 (concat (map snd rest))" by blast
  from r1 r2 have "ufs' = ufs @ (r1 @ r2)"
    "list_all2 Q (r1 @ r2) (concat (map snd (e # rest)))"
    unfolding e by (simp_all add: list_all2_appendI)
  then show ?case by blast
qed






lemma UploadFiles_ok:
  assumes "UploadFiles L t r d rename w = (Returns (files, None), t', w')"
  shows "\<exists>w1 form. t' = default_MaxFileSize t \<and> CreateDirIfNotExist d w = (None, w1) \<and>
           ParseMultipartForm r (MaxFileSize t') = Inr form \<and>
           range_File L t' d (renameFile_of rename) (range_order L form) [] w1 = (Returns (files, None), w')"
  using assms unfolding UploadFiles_def Let_def default_MaxFileSize_def renameFile_of_def
  by (auto split: prod.splits option.splits sum.splits)


lemma UploadFiles_Tools:
  "fst (snd (UploadFiles L t r d rename w)) = default_MaxFileSize t"
  unfolding UploadFiles_def Let_def default_MaxFileSize_def
  by (auto split: prod.splits option.splits sum.splits)

lemma UploadOneFile_cases:
  "UploadOneFile L t r d rename w =
     (case UploadFiles L t r d [renameFile_of rename] w of
        (Panics m, t', w') \<Rightarrow> (Panics m, t', w')
      | (Returns (files, Some err), t', w') \<Rightarrow> (Returns (None, Some err), t', w')
      | (Returns ([], None), t', w') \<Rightarrow> (Panics ''index out of range [0] with length 0'', t', w')
      | (Returns (f # rest, None), t', w') \<Rightarrow> (Returns (Some f, None), t', w'))"
  unfolding UploadOneFile_def Let_def renameFile_of_def
  by (auto split: prod.splits exec.splits option.splits list.splits)

lemma UploadOneFile_first_record:
  "(UploadFiles L t r d [renameFile_of rename] w = (Returns (f # rest, None), t', w') \<longrightarrow>
      UploadOneFile L t r d rename w = (Returns (Some f, None), t', w')) \<and>
   (UploadFiles L t r d [renameFile_of rename] w = (Returns (files, Some err), t', w') \<longrightarrow>
      UploadOneFile L t r d rename w = (Returns (None, Some err), t', w'))"
  by (simp add: UploadOneFile_cases split: list.splits)

text \<open>
  A well-formed body that carries files only is parsed whatever \<open>maxMemory\<close> is: no
  size of a file makes \<^verbatim>\<open>ParseMultipartForm\<close> fail.
\<close>

lemma readForm_parts_files:
  assumes "list_all (\<lambda>p. FormName p = [] \<or> FileName p \<noteq> []) ps"
  shows "\<exists>form'. readForm_parts ps None maxMemory maxValueBytes form = Inr form'"
  using assms
proof (induction ps arbitrary: maxMemory maxValueBytes form)
  case Nil
  show ?case by simp
next
  case (Cons p ps)
  then have rest: "list_all (\<lambda>p. FormName p = [] \<or> FileName p \<noteq> []) ps"
    and here: "FormName p = [] \<or> FileName p \<noteq> []" by simp_all
  from here Cons.IH [OF rest] show ?case by (auto simp: Let_def)
qed

lemma file_parts_never_too_large:
  assumes "multipartReader_err r = None" "NextPart_err r = None" "ParseForm_err r = None"
    and "list_all (\<lambda>p. FormName p = [] \<or> FileName p \<noteq> []) (body_parts r)"
  shows "\<exists>form. ParseMultipartForm r maxMemory = Inr form"
proof -
  from readForm_parts_files [OF assms(4)] obtain form where
    "ReadForm (body_parts r) None maxMemory = Inr form"
    unfolding ReadForm_def Let_def by blast
  with assms(1,2,3) show ?thesis by (simp add: ParseMultipartForm_def)
qed

subsection \<open>Runs on the example inputs\<close>

lemmas ex_defs = stdlib_ex_def no_faults_def file_part_def request_of_def tools_of_def
  png_bytes_def hello_bytes_def world_ex_def sniff_ex_def isWS_def isBinary_def ascii_lower_def

lemmas run_defs = UploadFiles_def UploadOneFile_def CreateDirIfNotExist_def os_Stat_def
  os_Mkdir_def os_Create_def ParseMultipartForm_def ReadForm_def io_CopyN_def wrap64_def
  MaxInt64_def UploadFiles_func_def File_Read_def File_Seek_def io_Copy_def write_bytes_def
  filepath_Join_def Clean_step_def filepath_Ext_def mode_def os_ReadFile_def permits_def
  rights_def os_MkdirAll.simps

lemma wf_world_ex: "wf_fs (fs world_ex)"
  unfolding wf_fs_def world_ex_def by (auto split: if_splits)

lemma stat_ex_absent: "os_Stat [''srv'', ''uploads'', ''img''] world_ex = Inl (PathError ''stat'' ENOENT)"
  by (simp add: world_ex_def os_Stat_def permits_def rights_def)

lemma stat_ex_dir: "os_Stat [''srv''] world_ex = Inr (Dir 0x1ED Owner)"
  by (simp add: world_ex_def os_Stat_def permits_def rights_def)

lemma stat_ex_notdir:
  "os_Stat [''srv'', ''notes'', ''sub''] world_file = Inl (PathError ''stat'' ENOTDIR)"
  by (simp add: world_file_def world_ex_def os_Stat_def permits_def rights_def)

text \<open>
  Under the umask 0300 the directory \<^verbatim>\<open>/srv/uploads\<close> is made with the mode 0455, which
  lets nobody but the superuser make \<^verbatim>\<open>/srv/uploads/img\<close> in it: \<^verbatim>\<open>os.MkdirAll\<close>
  fails, and \<open>CreateDirIfNotExist\<close> returns its error and leaves the one directory
  behind.
\<close>

lemma mkdir_umask_EACCES:
  "os_Stat [''srv'', ''uploads'', ''img''] world_umask = Inl (PathError ''stat'' ENOENT) \<and>
   CreateDirIfNotExist [''srv'', ''uploads'', ''img''] world_umask =
     (Some (PathError ''mkdir'' EACCES),
      world_umask\<lparr>fs := (fs world_umask)([''srv'', ''uploads''] \<mapsto> Dir 0x12D Owner)\<rparr>)"
  by (simp add: world_umask_def world_ex_def run_defs)


lemma png_func_run:
  "UploadFiles_func stdlib_ex (tools_of 0 [''image/png'']) [''srv''] False png_header [] world_ex =
     (Returns ([\<lparr>NewFileName = ''a.png'', OriginalFileName = ''a.png'', FileSize = 10\<rparr>], None),
      world_ex\<lparr>fs := (fs world_ex)([''srv'', ''a.png''] \<mapsto> File 0x1A4 Owner png_bytes)\<rparr>)"
  by (simp add: ex_defs run_defs png_header_def)

lemma png_batch_run:
  "fst (UploadFiles stdlib_ex (tools_of 0 [''image/png''])
          (request_of [file_part ''a.png'' ''image/gif'' png_bytes]) [''srv''] [False] world_ex) =
     Returns ([\<lparr>NewFileName = ''a.png'', OriginalFileName = ''a.png'', FileSize = 10\<rparr>], None)"
  by (simp add: ex_defs run_defs)

lemma png_renamed_run:
  "fst (UploadFiles stdlib_ex (tools_of 0 [''image/png''])
          (request_of [file_part ''a.png'' ''image/gif'' png_bytes]) [''srv''] [] world_ex) =
     Returns ([\<lparr>NewFileName = ''fffffffffffffffffffffffff.png'', OriginalFileName = ''a.png'',
                FileSize = 10\<rparr>], None)"
  by (simp add: ex_defs run_defs RandomString_25_ex)

lemma png_batch_full:
  "UploadFiles stdlib_ex (tools_of 0 [''image/png''])
      (request_of [file_part ''a.png'' ''image/gif'' png_bytes]) [''srv''] [renameFile_of [False]]
      world_ex =
     (Returns ([\<lparr>NewFileName = ''a.png'', OriginalFileName = ''a.png'', FileSize = 10\<rparr>], None),
      tools_of 1073741824 [''image/png''],
      world_ex\<lparr>fs := (fs world_ex)([''srv'', ''a.png''] \<mapsto> File 0x1A4 Owner png_bytes)\<rparr>)"
  by (simp add: ex_defs run_defs renameFile_of_def)

lemma png_allowed: "allowed_type stdlib_ex (tools_of 0 [''image/png'']) (sniff_window (content png_header))"
  by (simp add: allowed_type_def sniff_window_def ex_defs png_header_def)

lemma stored_file_reads_back_example:
  "open_err (faults png_header) = None \<and> read_err (faults png_header) = None \<and>
   seek_err (faults png_header) = None \<and> copy_err (faults png_header) = None \<and>
   content png_header \<noteq> [] \<and>
   allowed_type stdlib_ex (tools_of 0 [''image/png'']) (sniff_window (content png_header)) \<and>
   os_Stat [''srv''] world_ex = Inr (Dir 0x1ED Owner) \<and>
   permits (superuser world_ex) 1 0x1ED Owner \<and> permits (superuser world_ex) 2 0x1ED Owner \<and>
   permits (superuser world_ex) 4 (0x1B6 AND NOT (umask world_ex)) Owner \<and>
   (\<forall>c. fs world_ex ([''srv''] @ [c]) = None) \<and>
   (\<exists>rec w'. UploadFiles_func stdlib_ex (tools_of 0 [''image/png'']) [''srv''] False png_header []
        world_ex = (Returns ([] @ [rec], None), w') \<and>
      FileSize rec = int (length (content png_header)) \<and>
      os_ReadFile (filepath_Join [''srv''] (NewFileName rec)) w' = Inr (content png_header))"
proof -
  have h1: "open_err (faults png_header) = None" "read_err (faults png_header) = None"
    "seek_err (faults png_header) = None" "copy_err (faults png_header) = None"
    by (simp_all add: png_header_def no_faults_def)
  have h5: "content png_header \<noteq> []" by (simp add: png_header_def png_bytes_def)
  have h7: "permits (superuser world_ex) 1 0x1ED Owner" "permits (superuser world_ex) 2 0x1ED Owner"
    "permits (superuser world_ex) 4 (0x1B6 AND NOT (umask world_ex)) Owner"
    by (simp_all add: world_ex_def permits_def rights_def)
  have e: "\<forall>c. fs world_ex ([''srv''] @ [c]) = None" by (simp add: world_ex_def)
  then have h8: "\<forall>c. case fs world_ex ([''srv''] @ [c]) of
               None \<Rightarrow> True
             | Some (Dir _ _) \<Rightarrow> False
             | Some (File fm fk _) \<Rightarrow>
                 permits (superuser world_ex) 6 fm fk \<and> permits (superuser world_ex) 4 fm fk"
    by simp
  have h9: "if False then (\<forall>j. prime_stream world_ex j \<noteq> None)
    else CHR ''/'' \<notin> set (Filename png_header) \<and> Filename png_header \<notin> {[], ''.'', ''..''}"
    by (simp add: png_header_def)
  from stored_file_reads_back [OF h1 h5 png_allowed stat_ex_dir h7 h8 h9, of "[]"]
    h1 h5 png_allowed stat_ex_dir h7 e
  show ?thesis by blast
qed

lemma type_decision_example:
  "open_err (faults txt_header) = None \<and> read_err (faults txt_header) = None \<and>
   content txt_header \<noteq> [] \<and>
   \<not> allowed_type stdlib_ex (tools_of 0 [''image/png'']) (sniff_window (content txt_header)) \<and>
   UploadFiles_func stdlib_ex (tools_of 0 [''image/png'']) [''srv''] False txt_header []
       world_ex =
     (Returns ([], Some (errors_New ''the uploaded file type is not permitted'')), world_ex) \<and>
   range_fHeaders stdlib_ex (tools_of 0 [''image/png'']) [''srv''] False
       (txt_header # [png_header]) [] world_ex =
     (Returns ([], Some (errors_New ''the uploaded file type is not permitted'')), world_ex)"
proof -
  have h: "open_err (faults txt_header) = None" "read_err (faults txt_header) = None"
    "content txt_header \<noteq> []"
    by (simp_all add: txt_header_def no_faults_def hello_bytes_def)
  have n: "\<not> allowed_type stdlib_ex (tools_of 0 [''image/png''])
              (sniff_window (content txt_header))"
    by (simp add: allowed_type_def sniff_window_def ex_defs txt_header_def list_ex_iff)
  from type_decision [OF h, of stdlib_ex "tools_of 0 [''image/png'']" "[''srv'']" False "[]" world_ex
      "[png_header]"] h n
  show ?thesis by blast
qed

lemma UploadOneFile_first_record_example:
  "UploadFiles stdlib_ex (tools_of 0 [''image/png''])
      (request_of [file_part ''a.png'' ''image/gif'' png_bytes]) [''srv''] [renameFile_of [False]]
      world_ex =
     (Returns ([\<lparr>NewFileName = ''a.png'', OriginalFileName = ''a.png'', FileSize = 10\<rparr>], None),
      tools_of 1073741824 [''image/png''],
      world_ex\<lparr>fs := (fs world_ex)([''srv'', ''a.png''] \<mapsto> File 0x1A4 Owner png_bytes)\<rparr>) \<and>
   UploadOneFile stdlib_ex (tools_of 0 [''image/png''])
      (request_of [file_part ''a.png'' ''image/gif'' png_bytes]) [''srv''] [False] world_ex =
     (Returns (Some \<lparr>NewFileName = ''a.png'', OriginalFileName = ''a.png'', FileSize = 10\<rparr>, None),
      tools_of 1073741824 [''image/png''],
      world_ex\<lparr>fs := (fs world_ex)([''srv'', ''a.png''] \<mapsto> File 0x1A4 Owner png_bytes)\<rparr>)"
  using png_batch_full
    UploadOneFile_first_record [of stdlib_ex "tools_of 0 [''image/png'']"
      "request_of [file_part ''a.png'' ''image/gif'' png_bytes]" "[''srv'']" "[False]" world_ex
      "\<lparr>NewFileName = ''a.png'', OriginalFileName = ''a.png'', FileSize = 10\<rparr>" "[]"
      "tools_of 1073741824 [''image/png'']"
      "world_ex\<lparr>fs := (fs world_ex)([''srv'', ''a.png''] \<mapsto> File 0x1A4 Owner png_bytes)\<rparr>"]
  by blast

lemma file_parts_never_too_large_example:
  "multipartReader_err (request_of [file_part ''a.png'' ''image/gif'' png_bytes]) = None \<and>
   NextPart_err (request_of [file_part ''a.png'' ''image/gif'' png_bytes]) = None \<and>
   ParseForm_err (request_of [file_part ''a.png'' ''image/gif'' png_bytes]) = None \<and>
   list_all (\<lambda>p. FormName p = [] \<or> FileName p \<noteq> [])
     (body_parts (request_of [file_part ''a.png'' ''image/gif'' png_bytes])) \<and>
   (\<exists>form. ParseMultipartForm (request_of [file_part ''a.png'' ''image/gif'' png_bytes]) 1 = Inr form)"
proof -
  have h: "multipartReader_err (request_of [file_part ''a.png'' ''image/gif'' png_bytes]) = None"
    "NextPart_err (request_of [file_part ''a.png'' ''image/gif'' png_bytes]) = None"
    "ParseForm_err (request_of [file_part ''a.png'' ''image/gif'' png_bytes]) = None"
    "list_all (\<lambda>p. FormName p = [] \<or> FileName p \<noteq> [])
       (body_parts (request_of [file_part ''a.png'' ''image/gif'' png_bytes]))"
    by (simp_all add: request_of_def file_part_def)
  from file_parts_never_too_large [OF h, of 1] h show ?thesis by blast
qed

section \<open>The claims\<close>

subsection \<open>C1: the bound on the size of the request\<close>

text \<open>
  C1. \<^verbatim>\<open>UploadFiles\<close> hands \<open>MaxFileSize\<close> to \<^verbatim>\<open>ParseMultipartForm\<close>, where it is the
  amount of memory the parser may use and not a bound on the body: a file part that
  does not fit is written to a temporary file. With \<open>MaxFileSize = 1\<close> and a body that
  carries one file of two bytes, the call does not fail with the error
  \<^verbatim>\<open>the uploaded file is too big\<close>: it returns one record and no error, and the two
  bytes are in the destination directory.
\<close>

theorem UploadFiles_accepts_body_over_MaxFileSize:
  "payload_size (request_of [file_part ''a.txt'' ''text/plain'' [0x68, 0x69]]) = 2 \<and>
   MaxFileSize (tools_of 1 []) = 1 \<and>
   fst (UploadFiles stdlib_ex (tools_of 1 [])
          (request_of [file_part ''a.txt'' ''text/plain'' [0x68, 0x69]])
          [''srv'', ''uploads''] [False] world_ex) =
     Returns ([\<lparr>NewFileName = ''a.txt'', OriginalFileName = ''a.txt'', FileSize = 2\<rparr>], None) \<and>
   os_ReadFile [''srv'', ''uploads'', ''a.txt'']
     (snd (snd (UploadFiles stdlib_ex (tools_of 1 [])
          (request_of [file_part ''a.txt'' ''text/plain'' [0x68, 0x69]])
          [''srv'', ''uploads''] [False] world_ex))) = Inr [0x68, 0x69]"
  by (simp add: ex_defs run_defs payload_size_def)

subsection \<open>C2: UploadOneFile on a request without files\<close>

text \<open>
  C2. On a request whose form has no file, \<^verbatim>\<open>UploadFiles\<close> returns the nil slice and
  no error, and \<^verbatim>\<open>UploadOneFile\<close> indexes it: \<^verbatim>\<open>files[0]\<close> panics with an index out
  of range. No error value is returned.
\<close>

theorem UploadOneFile_no_file_panics:
  "fst (UploadOneFile stdlib_ex (tools_of 0 []) (request_of []) [''srv'', ''uploads''] [] world_ex)
   = Panics ''index out of range [0] with length 0''"
  by (simp add: ex_defs run_defs)

subsection \<open>C3: the slice returned with an error\<close>




subsection \<open>C4: the bytes the content type is sniffed from\<close>

text \<open>
  C4. The buffer given to \<^verbatim>\<open>http.DetectContentType\<close> is always 512 bytes long: for a
  part shorter than that it is the content followed by zero bytes, since the count
  \<^verbatim>\<open>Read\<close> returns is dropped. The five bytes of \<^verbatim>\<open>hello\<close> are sniffed as
  \<^verbatim>\<open>text/plain; charset=utf-8\<close>, which the policy of the example allows, but the
  padded buffer is sniffed as \<^verbatim>\<open>application/octet-stream\<close>, and the file is refused
  as \<^verbatim>\<open>the uploaded file type is not permitted\<close>.
\<close>

theorem UploadFiles_sniffs_zero_padding:
  "DetectContentType stdlib_ex hello_bytes = ''text/plain; charset=utf-8'' \<and>
   DetectContentType stdlib_ex (sniff_window hello_bytes) = ''application/octet-stream'' \<and>
   fst (UploadFiles stdlib_ex (tools_of 0 [''text/plain; charset=utf-8''])
          (request_of [file_part ''hello.txt'' ''text/plain'' hello_bytes])
          [''srv'', ''uploads''] [False] world_ex) =
     Returns ([], Some (errors_New ''the uploaded file type is not permitted''))"
  by (simp add: ex_defs run_defs sniff_window_def list_ex_iff)

subsection \<open>C5: the size in the record\<close>

text \<open>
  C5. When the function literal stores a file, the record it appends has as
  \<open>FileSize\<close> the length of the content of the part, and the destination file holds that
  content from its first byte on, the bytes read for sniffing included; it reads back as
  that content when the process may read it. The read for sniffing leaves the read offset
  behind the bytes it read, at most 512; \<^verbatim>\<open>Seek(0, 0)\<close> sets it to 0, and \<^verbatim>\<open>io.Copy\<close>
  counts the bytes from the offset on: from offset 0 all of them, from the offset the
  read has left it at only those behind the sniffed ones. The size the file header
  declares is not read: the run is the same for every value of \<open>Size\<close>. For a whole call
  that returns no error, the records have the lengths of the contents of the file headers
  of the form, in order.
\<close>

theorem FileSize_is_bytes_copied:
  "(UploadFiles_func L t d rn hdr ufs w = (Returns (ufs', None), w') \<longrightarrow>
      (\<exists>rec m k. ufs' = ufs @ [rec] \<and> FileSize rec = int (length (content hdr)) \<and>
         fs w' (filepath_Join d (NewFileName rec)) = Some (File m k (content hdr)) \<and>
         (permits (superuser w') 4 m k \<longrightarrow>
            os_ReadFile (filepath_Join d (NewFileName rec)) w' = Inr (content hdr)))) \<and>
   (File_Read hdr 0 (replicate 512 0) = (None, buff, off1) \<longrightarrow>
      off1 = min (length (content hdr)) 512 \<and> 0 < off1 \<and>
      (seek_err (faults hdr) = None \<longrightarrow> File_Seek hdr 0 0 off1 = (None, 0)) \<and>
      (copy_err (faults hdr) = None \<longrightarrow>
         fst (io_Copy dst hdr 0 w1) = (int (length (content hdr)), None) \<and>
         fst (io_Copy dst hdr off1 w1) = (int (length (content hdr)) - int off1, None))) \<and>
   UploadFiles_func L t d rn (hdr\<lparr>Size := z\<rparr>) ufs w = UploadFiles_func L t d rn hdr ufs w \<and>
   (fst (UploadFiles L t r d rename w0) = Returns (files, None) \<longrightarrow>
      (\<exists>form. ParseMultipartForm r (MaxFileSize (default_MaxFileSize t)) = Inr form \<and>
         list_all2 (\<lambda>rec h. FileSize rec = int (length (content h)))
           files (concat (map snd (range_order L form)))))"
proof (intro conjI impI)
  assume "UploadFiles_func L t d rn hdr ufs w = (Returns (ufs', None), w')"
  from UploadFiles_func_stored [OF this] obtain rec fm fk where
    s: "ufs' = ufs @ [rec]" "FileSize rec = int (length (content hdr))"
       "fs w' = (fs w)(filepath_Join d (NewFileName rec) \<mapsto> File fm fk (content hdr))"
       "walk (superuser w') (fs w') [] (filepath_Join d (NewFileName rec)) =
          Inr (File fm fk (content hdr))"
    by blast
  from s(3) have here: "fs w' (filepath_Join d (NewFileName rec)) = Some (File fm fk (content hdr))"
    by simp
  from s(4) have "permits (superuser w') 4 fm fk \<longrightarrow>
            os_ReadFile (filepath_Join d (NewFileName rec)) w' = Inr (content hdr)"
    by (simp add: os_ReadFile_def)
  with s(1,2) here
  show "\<exists>rec m k. ufs' = ufs @ [rec] \<and> FileSize rec = int (length (content hdr)) \<and>
         fs w' (filepath_Join d (NewFileName rec)) = Some (File m k (content hdr)) \<and>
         (permits (superuser w') 4 m k \<longrightarrow>
            os_ReadFile (filepath_Join d (NewFileName rec)) w' = Inr (content hdr))"
    by blast
next
  assume rd: "File_Read hdr 0 (replicate 512 0) = (None, buff, off1)"
  then have ne: "content hdr \<noteq> []" and o: "off1 = min (length (content hdr)) 512"
    by (simp_all add: File_Read_ok)
  from o show "off1 = min (length (content hdr)) 512" .
  from ne o show "0 < off1" by simp
  {
    assume "seek_err (faults hdr) = None"
    then show "File_Seek hdr 0 0 off1 = (None, 0)" by (simp add: File_Seek_start)
  }
  {
    assume c: "copy_err (faults hdr) = None"
    from c show "fst (io_Copy dst hdr 0 w1) = (int (length (content hdr)), None)"
      by (simp add: io_Copy_from)
    from c o show "fst (io_Copy dst hdr off1 w1) = (int (length (content hdr)) - int off1, None)"
      by (simp add: io_Copy_from)
  }
next
  show "UploadFiles_func L t d rn (hdr\<lparr>Size := z\<rparr>) ufs w = UploadFiles_func L t d rn hdr ufs w"
    by (rule UploadFiles_func_Size_unused)
next
  assume a: "fst (UploadFiles L t r d rename w0) = Returns (files, None)"
  obtain res t' w' where u: "UploadFiles L t r d rename w0 = (res, t', w')"
    by (cases "UploadFiles L t r d rename w0")
  with a have "UploadFiles L t r d rename w0 = (Returns (files, None), t', w')" by simp
  from UploadFiles_ok [OF this] obtain w1 form where
    t': "t' = default_MaxFileSize t"
    and p: "ParseMultipartForm r (MaxFileSize t') = Inr form"
    and l: "range_File L t' d (renameFile_of rename) (range_order L form) [] w1 = (Returns (files, None), w')"
    by blast
  have "\<exists>recs. files = [] @ recs \<and>
          list_all2 (\<lambda>rec h. FileSize rec = int (length (content h))) recs (concat (map snd (range_order L form)))"
  proof (rule range_File_all2 [OF _ l])
    fix hdr ufs w ufs' w'
    assume "UploadFiles_func L t' d (renameFile_of rename) hdr ufs w = (Returns (ufs', None), w')"
    from UploadFiles_func_stored [OF this]
    show "\<exists>rec. ufs' = ufs @ [rec] \<and> FileSize rec = int (length (content hdr))" by blast
  qed
  with p t' show "\<exists>form. ParseMultipartForm r (MaxFileSize (default_MaxFileSize t)) = Inr form \<and>
         list_all2 (\<lambda>rec h. FileSize rec = int (length (content h)))
           files (concat (map snd (range_order L form)))"
    by auto
qed

theorem FileSize_is_bytes_copied_witness:
  "UploadFiles_func stdlib_ex (tools_of 0 [''image/png'']) [''srv''] False png_header [] world_ex =
     (Returns ([\<lparr>NewFileName = ''a.png'', OriginalFileName = ''a.png'', FileSize = 10\<rparr>], None),
      world_ex\<lparr>fs := (fs world_ex)([''srv'', ''a.png''] \<mapsto> File 0x1A4 Owner png_bytes)\<rparr>) \<and>
   (\<exists>rec m k. [\<lparr>NewFileName = ''a.png'', OriginalFileName = ''a.png'', FileSize = 10\<rparr>] = [] @ [rec] \<and>
      FileSize rec = int (length (content png_header)) \<and>
      fs (world_ex\<lparr>fs := (fs world_ex)([''srv'', ''a.png''] \<mapsto> File 0x1A4 Owner png_bytes)\<rparr>)
        (filepath_Join [''srv''] (NewFileName rec)) = Some (File m k (content png_header)) \<and>
      (permits (superuser
           (world_ex\<lparr>fs := (fs world_ex)([''srv'', ''a.png''] \<mapsto> File 0x1A4 Owner png_bytes)\<rparr>))
         4 m k \<longrightarrow>
       os_ReadFile (filepath_Join [''srv''] (NewFileName rec))
         (world_ex\<lparr>fs := (fs world_ex)([''srv'', ''a.png''] \<mapsto> File 0x1A4 Owner png_bytes)\<rparr>) =
         Inr (content png_header))) \<and>
   permits (superuser
        (world_ex\<lparr>fs := (fs world_ex)([''srv'', ''a.png''] \<mapsto> File 0x1A4 Owner png_bytes)\<rparr>))
      4 0x1A4 Owner \<and>
   os_ReadFile [''srv'', ''a.png'']
     (world_ex\<lparr>fs := (fs world_ex)([''srv'', ''a.png''] \<mapsto> File 0x1A4 Owner png_bytes)\<rparr>) =
     Inr (content png_header) \<and>
   File_Read png_header 0 (replicate 512 0) = (None, sniff_window (content png_header), 10) \<and>
   (10::nat) = min (length (content png_header)) 512 \<and>
   seek_err (faults png_header) = None \<and> File_Seek png_header 0 0 10 = (None, 0) \<and>
   copy_err (faults png_header) = None \<and>
   fst (io_Copy [''srv'', ''a.png''] png_header 0 world_ex) =
     (int (length (content png_header)), None) \<and>
   fst (io_Copy [''srv'', ''a.png''] png_header 10 world_ex) =
     (int (length (content png_header)) - int 10, None) \<and>
   int (length (content png_header)) - int 10 = 0 \<and>
   fst (UploadFiles stdlib_ex (tools_of 0 [''image/png''])
          (request_of [file_part ''a.png'' ''image/gif'' png_bytes]) [''srv''] [False] world_ex) =
     Returns ([\<lparr>NewFileName = ''a.png'', OriginalFileName = ''a.png'', FileSize = 10\<rparr>], None) \<and>
   (\<exists>form. ParseMultipartForm (request_of [file_part ''a.png'' ''image/gif'' png_bytes])
              (MaxFileSize (default_MaxFileSize (tools_of 0 [''image/png'']))) = Inr form \<and>
      list_all2 (\<lambda>rec h. FileSize rec = int (length (content h)))
        [\<lparr>NewFileName = ''a.png'', OriginalFileName = ''a.png'', FileSize = 10\<rparr>]
        (concat (map snd (range_order stdlib_ex form))))"
proof -
  have rd: "File_Read png_header 0 (replicate 512 0) = (None, sniff_window (content png_header), 10)"
    using File_Read_sniff [of png_header]
    by (simp add: png_header_def png_bytes_def no_faults_def)
  have f: "seek_err (faults png_header) = None" "copy_err (faults png_header) = None"
    by (simp_all add: png_header_def no_faults_def)
  have z: "int (length (content png_header)) - int 10 = 0"
    by (simp add: png_header_def png_bytes_def)
  note t = FileSize_is_bytes_copied [where L = stdlib_ex and t = "tools_of 0 [''image/png'']"
      and d = "[''srv'']" and rn = False and hdr = png_header and ufs = "[]" and w = world_ex
      and ufs' = "[\<lparr>NewFileName = ''a.png'', OriginalFileName = ''a.png'', FileSize = 10\<rparr>]"
      and w' = "world_ex\<lparr>fs := (fs world_ex)([''srv'', ''a.png''] \<mapsto> File 0x1A4 Owner png_bytes)\<rparr>"
      and buff = "sniff_window (content png_header)" and ?off1.0 = 10
      and dst = "[''srv'', ''a.png'']" and ?w1.0 = world_ex and z = 3
      and r = "request_of [file_part ''a.png'' ''image/gif'' png_bytes]" and rename = "[False]"
      and ?w0.0 = world_ex
      and files = "[\<lparr>NewFileName = ''a.png'', OriginalFileName = ''a.png'', FileSize = 10\<rparr>]"]
  let ?w' = "world_ex\<lparr>fs := (fs world_ex)([''srv'', ''a.png''] \<mapsto> File 0x1A4 Owner png_bytes)\<rparr>"
  from t png_func_run obtain rec m k where
    s: "[\<lparr>NewFileName = ''a.png'', OriginalFileName = ''a.png'', FileSize = 10\<rparr>] = [] @ [rec]"
       "fs ?w' (filepath_Join [''srv''] (NewFileName rec)) = Some (File m k (content png_header))"
       "permits (superuser ?w') 4 m k \<longrightarrow>
          os_ReadFile (filepath_Join [''srv''] (NewFileName rec)) ?w' = Inr (content png_header)"
    by blast
  from s(1) have nm: "filepath_Join [''srv''] (NewFileName rec) = [''srv'', ''a.png'']"
    by (auto simp: filepath_Join_def Clean_step_def)
  from s(2) have mk: "m = 0x1A4" "k = Owner" unfolding nm by simp_all
  have pm: "permits (superuser ?w') 4 0x1A4 Owner"
    by (simp add: world_ex_def permits_def rights_def)
  with s(3) have rb: "os_ReadFile [''srv'', ''a.png''] ?w' = Inr (content png_header)"
    unfolding nm mk by blast
  from t png_func_run rd f png_batch_run z pm rb show ?thesis by blast
qed

subsection \<open>C6: reading a stored file back\<close>

text \<open>
  C6. For a part of zero bytes the first \<^verbatim>\<open>Read\<close> returns \<^verbatim>\<open>io.EOF\<close>, which the
  function literal returns as the error of the file: the upload of an empty file fails,
  no policy being set, and no file is at the destination path.
\<close>

theorem UploadFiles_empty_file_EOF:
  "fst (UploadFiles stdlib_ex (tools_of 0 [])
          (request_of [file_part ''empty.txt'' ''text/plain'' []])
          [''srv'', ''uploads''] [False] world_ex) = Returns ([], Some io_EOF) \<and>
   os_ReadFile [''srv'', ''uploads'', ''empty.txt'']
     (snd (snd (UploadFiles stdlib_ex (tools_of 0 [])
          (request_of [file_part ''empty.txt'' ''text/plain'' []])
          [''srv'', ''uploads''] [False] world_ex))) = Inl (PathError ''open'' ENOENT)"
  by (simp add: ex_defs run_defs)

subsection \<open>C7: the stored name\<close>

text \<open>
  C7, as amended. For a call of \<^verbatim>\<open>UploadFiles\<close> that returns no error, every record
  belongs to a file header of the form, in order, and carries its declared name as
  \<open>OriginalFileName\<close>. When files are renamed, \<open>NewFileName\<close> is 25 characters of
  \<open>randomStringSource\<close> followed by \<^verbatim>\<open>filepath.Ext\<close> of the declared name, and it
  differs from the declared name whenever that name is not 25 characters longer than its
  own extension. When files are not renamed, \<open>NewFileName\<close> is the declared name.
\<close>

theorem stored_names:
  assumes "fst (UploadFiles L t r d rename w) = Returns (files, None)"
  shows "\<exists>form. ParseMultipartForm r (MaxFileSize (default_MaxFileSize t)) = Inr form \<and>
           list_all2
             (\<lambda>rec h. OriginalFileName rec = Filename h \<and>
                (if renameFile_of rename
                 then (\<exists>s. length s = 25 \<and> set s \<subseteq> set randomStringSource \<and>
                           NewFileName rec = s @ filepath_Ext (Filename h)) \<and>
                      (length (Filename h) \<noteq> 25 + length (filepath_Ext (Filename h)) \<longrightarrow>
                         NewFileName rec \<noteq> OriginalFileName rec)
                 else NewFileName rec = OriginalFileName rec))
             files (concat (map snd (range_order L form)))"
proof -
  obtain res t' w' where u: "UploadFiles L t r d rename w = (res, t', w')"
    by (cases "UploadFiles L t r d rename w")
  with assms have "UploadFiles L t r d rename w = (Returns (files, None), t', w')" by simp
  from UploadFiles_ok [OF this] obtain w1 form where
    t': "t' = default_MaxFileSize t"
    and p: "ParseMultipartForm r (MaxFileSize t') = Inr form"
    and l: "range_File L t' d (renameFile_of rename) (range_order L form) [] w1 = (Returns (files, None), w')"
    by blast
  have "\<exists>recs. files = [] @ recs \<and>
          list_all2 (\<lambda>rec h. named_by (renameFile_of rename) h rec) recs (concat (map snd (range_order L form)))"
    by (rule range_File_all2 [OF _ l]) (rule UploadFiles_func_named)
  then have n: "list_all2 (\<lambda>rec h. named_by (renameFile_of rename) h rec) files
                  (concat (map snd (range_order L form)))" by simp
  have "list_all2
             (\<lambda>rec h. OriginalFileName rec = Filename h \<and>
                (if renameFile_of rename
                 then (\<exists>s. length s = 25 \<and> set s \<subseteq> set randomStringSource \<and>
                           NewFileName rec = s @ filepath_Ext (Filename h)) \<and>
                      (length (Filename h) \<noteq> 25 + length (filepath_Ext (Filename h)) \<longrightarrow>
                         NewFileName rec \<noteq> OriginalFileName rec)
                 else NewFileName rec = OriginalFileName rec))
             files (concat (map snd (range_order L form)))"
    using n
  proof (rule list_all2_mono)
    fix rec h assume nb: "named_by (renameFile_of rename) h rec"
    show "OriginalFileName rec = Filename h \<and>
                (if renameFile_of rename
                 then (\<exists>s. length s = 25 \<and> set s \<subseteq> set randomStringSource \<and>
                           NewFileName rec = s @ filepath_Ext (Filename h)) \<and>
                      (length (Filename h) \<noteq> 25 + length (filepath_Ext (Filename h)) \<longrightarrow>
                         NewFileName rec \<noteq> OriginalFileName rec)
                 else NewFileName rec = OriginalFileName rec)"
    proof (cases "renameFile_of rename")
      case False
      with nb show ?thesis unfolding named_by_def by simp
    next
      case True
      with nb obtain s where s: "length s = 25" "set s \<subseteq> set randomStringSource"
        "NewFileName rec = s @ filepath_Ext (Filename h)"
        and o: "OriginalFileName rec = Filename h"
        unfolding named_by_def by auto
      have "length (Filename h) \<noteq> 25 + length (filepath_Ext (Filename h)) \<longrightarrow>
              NewFileName rec \<noteq> OriginalFileName rec"
      proof (intro impI notI)
        assume l: "length (Filename h) \<noteq> 25 + length (filepath_Ext (Filename h))"
          and e: "NewFileName rec = OriginalFileName rec"
        from e o s(3) have "length (Filename h) = length (s @ filepath_Ext (Filename h))" by simp
        with s(1) l show False by simp
      qed
      with s o True show ?thesis by auto
    qed
  qed
  with p t' show ?thesis by auto
qed

theorem stored_names_witness:
  "fst (UploadFiles stdlib_ex (tools_of 0 [''image/png''])
          (request_of [file_part ''a.png'' ''image/gif'' png_bytes]) [''srv''] [False] world_ex) =
     Returns ([\<lparr>NewFileName = ''a.png'', OriginalFileName = ''a.png'', FileSize = 10\<rparr>], None) \<and>
   (\<exists>form. ParseMultipartForm (request_of [file_part ''a.png'' ''image/gif'' png_bytes])
              (MaxFileSize (default_MaxFileSize (tools_of 0 [''image/png'']))) = Inr form \<and>
      list_all2
        (\<lambda>rec h. OriginalFileName rec = Filename h \<and>
           (if renameFile_of [False]
            then (\<exists>s. length s = 25 \<and> set s \<subseteq> set randomStringSource \<and>
                      NewFileName rec = s @ filepath_Ext (Filename h)) \<and>
                 (length (Filename h) \<noteq> 25 + length (filepath_Ext (Filename h)) \<longrightarrow>
                    NewFileName rec \<noteq> OriginalFileName rec)
            else NewFileName rec = OriginalFileName rec))
        [\<lparr>NewFileName = ''a.png'', OriginalFileName = ''a.png'', FileSize = 10\<rparr>]
        (concat (map snd (range_order stdlib_ex form)))) \<and>
   fst (UploadFiles stdlib_ex (tools_of 0 [''image/png''])
          (request_of [file_part ''a.png'' ''image/gif'' png_bytes]) [''srv''] [] world_ex) =
     Returns ([\<lparr>NewFileName = ''fffffffffffffffffffffffff.png'', OriginalFileName = ''a.png'',
                FileSize = 10\<rparr>], None) \<and>
   (\<exists>form. ParseMultipartForm (request_of [file_part ''a.png'' ''image/gif'' png_bytes])
              (MaxFileSize (default_MaxFileSize (tools_of 0 [''image/png'']))) = Inr form \<and>
      list_all2
        (\<lambda>rec h. OriginalFileName rec = Filename h \<and>
           (if renameFile_of []
            then (\<exists>s. length s = 25 \<and> set s \<subseteq> set randomStringSource \<and>
                      NewFileName rec = s @ filepath_Ext (Filename h)) \<and>
                 (length (Filename h) \<noteq> 25 + length (filepath_Ext (Filename h)) \<longrightarrow>
                    NewFileName rec \<noteq> OriginalFileName rec)
            else NewFileName rec = OriginalFileName rec))
        [\<lparr>NewFileName = ''fffffffffffffffffffffffff.png'', OriginalFileName = ''a.png'',
           FileSize = 10\<rparr>]
        (concat (map snd (range_order stdlib_ex form))))"
  using png_batch_run stored_names [OF png_batch_run]
    png_renamed_run stored_names [OF png_renamed_run]
  by (intro conjI) assumption+

text \<open>
  C7 as stated fails where it says that the stored name never equals the original one:
  the client may have named its file with the 25 characters the random source draws.
  Here the source yields the prime \<open>2\<^sup>6\<^sup>4 - 59\<close> at every call, which selects \<^verbatim>\<open>f\<close>.
\<close>

theorem stored_name_may_equal_original:
  "fst (UploadFiles stdlib_ex (tools_of 0 [])
          (request_of [file_part ''fffffffffffffffffffffffff.png'' ''image/png'' png_bytes])
          [''srv'', ''uploads''] [] world_ex) =
     Returns ([\<lparr>NewFileName = ''fffffffffffffffffffffffff.png'',
                OriginalFileName = ''fffffffffffffffffffffffff.png'', FileSize = 10\<rparr>], None)"
  by (simp add: ex_defs run_defs RandomString_25_ex)

subsection \<open>C8: CreateDirIfNotExist\<close>

text \<open>
  C8, as amended. \<^verbatim>\<open>CreateDirIfNotExist\<close> returns no error and changes nothing
  whenever \<^verbatim>\<open>os.Stat\<close> finds something at the path, a directory or not, and also
  when \<^verbatim>\<open>os.Stat\<close> fails for another reason than that the path does not exist: a
  component of the path that is not a directory, or one that the process may not search.
  When \<^verbatim>\<open>os.Stat\<close> reports that the path does not exist, the result is that of
  \<^verbatim>\<open>os.MkdirAll(path, 0755)\<close>, its error included. When that is no error, in a
  well-formed filesystem, the path is a directory afterwards and so are all its
  ancestors, the directories made have the mode \<^verbatim>\<open>0755\<close> less the bits of the umask
  and belong to the process, and nothing that existed has changed.
\<close>

theorem CreateDirIfNotExist_behaviour:
  "(os_Stat p w = Inr n \<longrightarrow> CreateDirIfNotExist p w = (None, w)) \<and>
   (os_Stat p w = Inl (PathError ''stat'' e) \<and> e \<noteq> ENOENT \<longrightarrow>
      CreateDirIfNotExist p w = (None, w)) \<and>
   (os_Stat p w = Inl (PathError ''stat'' ENOENT) \<longrightarrow>
      CreateDirIfNotExist p w = os_MkdirAll p mode w) \<and>
   (wf_fs (fs w) \<and> os_Stat p w = Inl (PathError ''stat'' ENOENT) \<and>
    CreateDirIfNotExist p w = (None, w') \<longrightarrow>
      os_Stat p w' = Inr (Dir (mode AND NOT (umask w)) Owner) \<and>
      (\<forall>j \<le> length p. \<exists>m k. fs w' (take j p) = Some (Dir m k)) \<and>
      (\<forall>q. fs w q \<noteq> None \<longrightarrow> fs w' q = fs w q) \<and>
      (\<forall>q. fs w q = None \<and> fs w' q \<noteq> None \<longrightarrow>
           (\<exists>j \<le> length p. q = take j p) \<and>
           fs w' q = Some (Dir (mode AND NOT (umask w)) Owner)))"
proof (intro conjI impI)
  assume "os_Stat p w = Inr n"
  then show "CreateDirIfNotExist p w = (None, w)" by (rule CreateDirIfNotExist_exists)
next
  assume "os_Stat p w = Inl (PathError ''stat'' e) \<and> e \<noteq> ENOENT"
  then show "CreateDirIfNotExist p w = (None, w)"
    using CreateDirIfNotExist_other_error by blast
next
  assume "os_Stat p w = Inl (PathError ''stat'' ENOENT)"
  then show "CreateDirIfNotExist p w = os_MkdirAll p mode w" by (rule CreateDirIfNotExist_absent)
next
  assume "wf_fs (fs w) \<and> os_Stat p w = Inl (PathError ''stat'' ENOENT) \<and>
    CreateDirIfNotExist p w = (None, w')"
  then have a: "wf_fs (fs w)" "os_Stat p w = Inl (PathError ''stat'' ENOENT)"
    "CreateDirIfNotExist p w = (None, w')" by simp_all
  note r = CreateDirIfNotExist_made [OF a]
  from r show "os_Stat p w' = Inr (Dir (mode AND NOT (umask w)) Owner)" by blast
  from r show "\<forall>j \<le> length p. \<exists>m k. fs w' (take j p) = Some (Dir m k)" by blast
  from r show "\<forall>q. fs w q \<noteq> None \<longrightarrow> fs w' q = fs w q" by blast
  from r show "\<forall>q. fs w q = None \<and> fs w' q \<noteq> None \<longrightarrow>
           (\<exists>j \<le> length p. q = take j p) \<and>
           fs w' q = Some (Dir (mode AND NOT (umask w)) Owner)" by blast
qed

theorem CreateDirIfNotExist_behaviour_witness:
  "os_Stat [''srv''] world_ex = Inr (Dir 0x1ED Owner) \<and>
   CreateDirIfNotExist [''srv''] world_ex = (None, world_ex) \<and>
   os_Stat [''srv'', ''notes'', ''sub''] world_file = Inl (PathError ''stat'' ENOTDIR) \<and>
   ENOTDIR \<noteq> ENOENT \<and>
   CreateDirIfNotExist [''srv'', ''notes'', ''sub''] world_file = (None, world_file) \<and>
   os_Stat [''srv'', ''uploads'', ''img''] world_umask = Inl (PathError ''stat'' ENOENT) \<and>
   CreateDirIfNotExist [''srv'', ''uploads'', ''img''] world_umask =
     os_MkdirAll [''srv'', ''uploads'', ''img''] mode world_umask \<and>
   os_MkdirAll [''srv'', ''uploads'', ''img''] mode world_umask =
     (Some (PathError ''mkdir'' EACCES),
      world_umask\<lparr>fs := (fs world_umask)([''srv'', ''uploads''] \<mapsto> Dir 0x12D Owner)\<rparr>) \<and>
   wf_fs (fs world_ex) \<and>
   os_Stat [''srv'', ''uploads'', ''img''] world_ex = Inl (PathError ''stat'' ENOENT) \<and>
   CreateDirIfNotExist [''srv'', ''uploads'', ''img''] world_ex =
     (None, world_ex\<lparr>fs := (fs world_ex)([''srv'', ''uploads''] \<mapsto> Dir 0x1ED Owner,
                                          [''srv'', ''uploads'', ''img''] \<mapsto> Dir 0x1ED Owner)\<rparr>) \<and>
   os_Stat [''srv'', ''uploads'', ''img'']
     (world_ex\<lparr>fs := (fs world_ex)([''srv'', ''uploads''] \<mapsto> Dir 0x1ED Owner,
                                   [''srv'', ''uploads'', ''img''] \<mapsto> Dir 0x1ED Owner)\<rparr>) =
     Inr (Dir (mode AND NOT (umask world_ex)) Owner) \<and>
   mode AND NOT (umask world_ex) = 0x1ED \<and>
   fs world_ex [''srv''] \<noteq> None \<and>
   fs (world_ex\<lparr>fs := (fs world_ex)([''srv'', ''uploads''] \<mapsto> Dir 0x1ED Owner,
                                  [''srv'', ''uploads'', ''img''] \<mapsto> Dir 0x1ED Owner)\<rparr>)
      [''srv''] = fs world_ex [''srv'']"
proof -
  let ?w' = "world_ex\<lparr>fs := (fs world_ex)([''srv'', ''uploads''] \<mapsto> Dir 0x1ED Owner,
                                          [''srv'', ''uploads'', ''img''] \<mapsto> Dir 0x1ED Owner)\<rparr>"
  note b1 = CreateDirIfNotExist_behaviour [of "[''srv'']" world_ex "Dir 0x1ED Owner"]
  note b2 = CreateDirIfNotExist_behaviour [of "[''srv'', ''notes'', ''sub'']" world_file _ ENOTDIR]
  note b3 = CreateDirIfNotExist_behaviour [of "[''srv'', ''uploads'', ''img'']" world_umask]
  note b4 = CreateDirIfNotExist_behaviour [of "[''srv'', ''uploads'', ''img'']" world_ex _ _ ?w']
  from b1 stat_ex_dir have c1: "CreateDirIfNotExist [''srv''] world_ex = (None, world_ex)" by blast
  have ne: "ENOTDIR \<noteq> ENOENT" by simp
  from b2 stat_ex_notdir ne have
    c2: "CreateDirIfNotExist [''srv'', ''notes'', ''sub''] world_file = (None, world_file)" by blast
  have s3: "os_Stat [''srv'', ''uploads'', ''img''] world_umask = Inl (PathError ''stat'' ENOENT)"
    using mkdir_umask_EACCES by blast
  from b3 s3 have c3: "CreateDirIfNotExist [''srv'', ''uploads'', ''img''] world_umask =
     os_MkdirAll [''srv'', ''uploads'', ''img''] mode world_umask" by blast
  with mkdir_umask_EACCES have m3: "os_MkdirAll [''srv'', ''uploads'', ''img''] mode world_umask =
     (Some (PathError ''mkdir'' EACCES),
      world_umask\<lparr>fs := (fs world_umask)([''srv'', ''uploads''] \<mapsto> Dir 0x12D Owner)\<rparr>)"
    by simp
  have run: "CreateDirIfNotExist [''srv'', ''uploads'', ''img''] world_ex = (None, ?w')"
    by (simp add: world_ex_def run_defs)
  from b4 wf_world_ex stat_ex_absent run have
    r: "os_Stat [''srv'', ''uploads'', ''img''] ?w' = Inr (Dir (mode AND NOT (umask world_ex)) Owner)"
       "\<forall>q. fs world_ex q \<noteq> None \<longrightarrow> fs ?w' q = fs world_ex q"
    by blast+
  have m: "mode AND NOT (umask world_ex) = 0x1ED" by (simp add: mode_def world_ex_def)
  have e: "fs world_ex [''srv''] \<noteq> None" by (simp add: world_ex_def)
  with r(2) have k: "fs ?w' [''srv''] = fs world_ex [''srv'']" by blast
  from stat_ex_dir c1 stat_ex_notdir ne c2 s3 c3 m3 wf_world_ex stat_ex_absent run r(1) m e k
  show ?thesis by (intro conjI) assumption+
qed

text \<open>
  C8 as stated fails on a path that exists as a regular file: no error is returned. Nor
  is a path below a regular file created, or an error returned for it.
\<close>

theorem CreateDirIfNotExist_ignores_file:
  "os_Stat [''srv'', ''notes''] world_file = Inr (File 0x1A4 Owner hello_bytes) \<and>
   CreateDirIfNotExist [''srv'', ''notes''] world_file = (None, world_file) \<and>
   os_Stat [''srv'', ''notes'', ''sub''] world_file = Inl (PathError ''stat'' ENOTDIR) \<and>
   CreateDirIfNotExist [''srv'', ''notes'', ''sub''] world_file = (None, world_file) \<and>
   fs world_file [''srv'', ''notes'', ''sub''] = None"
  by (simp add: world_file_def world_ex_def CreateDirIfNotExist_def os_Stat_def permits_def
        rights_def)

subsection \<open>C9: the receiver after UploadFiles\<close>

text \<open>
  C9, as amended. After every call of \<^verbatim>\<open>UploadFiles\<close> the fields \<open>AllowedFileTypes\<close>,
  \<open>MaxJSONSize\<close> and \<open>AllowUnknownFields\<close> of the receiver hold the value they held
  before; \<open>MaxFileSize\<close> holds its value unless that was 0, and then it holds
  1073741824.
\<close>

theorem UploadFiles_Tools_after:
  "AllowedFileTypes (fst (snd (UploadFiles L t r d rename w))) = AllowedFileTypes t \<and>
   MaxJSONSize (fst (snd (UploadFiles L t r d rename w))) = MaxJSONSize t \<and>
   AllowUnknownFields (fst (snd (UploadFiles L t r d rename w))) = AllowUnknownFields t \<and>
   MaxFileSize (fst (snd (UploadFiles L t r d rename w))) =
     (if MaxFileSize t = 0 then 1073741824 else MaxFileSize t)"
  by (simp add: UploadFiles_Tools default_MaxFileSize_def)

text \<open>C9 as stated fails for a receiver whose \<open>MaxFileSize\<close> is 0.\<close>

theorem UploadFiles_Tools_mutated:
  "MaxFileSize (fst (snd (UploadFiles stdlib_ex (tools_of 0 []) (request_of []) [''srv''] []
      world_ex))) \<noteq> MaxFileSize (tools_of 0 [])"
  by (simp add: UploadFiles_Tools default_MaxFileSize_def tools_of_def)

subsection \<open>C10: the indices RandomString can reach\<close>




end
